theory Spec2Isabelle
  imports Complex_Main
begin

section \<open>Fourier-transform option pricing: a shallow embedding\<close>

text \<open>
  The development follows the Merton jump-diffusion Fourier pricing notebook (the function
  \<^verbatim>\<open>payoff\<close> and the driver cells that build the grids, sample the characteristic function
  and price by FFT, by trapezoidal integration and through the recovered density) and the
  Heston notebook (\<^verbatim>\<open>f_Heston\<close>).

  Numbers. The notebooks compute in IEEE double precision. The embedding computes in the
  exact real and complex numbers: rounding and overflow are not modelled. What numpy signals
  by an exception or by a non-finite value is a value of the model:
  \<^item> a Python exception is an \<open>Inl\<close> of the type \<open>error\<close>;
  \<^item> a division by zero inside a numpy array expression (run under
    \<^verbatim>\<open>np.errstate(divide='ignore', invalid='ignore')\<close>, so it yields \<^verbatim>\<open>nan\<close> or \<^verbatim>\<open>inf\<close> and no
    exception) is the entry \<open>None\<close> of a list of \<open>complex option\<close>; \<open>Some z\<close> is a finite entry;
  \<^item> a logarithm of a non-positive number (numpy returns \<^verbatim>\<open>-inf\<close> or \<^verbatim>\<open>nan\<close>) leaves exact
    arithmetic; the model reports \<open>Inl NotFinite\<close> and does not follow IEEE arithmetic on
    infinities any further. Every theorem below is stated for positive prices, where this
    branch is not taken.
\<close>

datatype error = ZeroDivisionError | ValueError | IndexError | NotFinite

subsection \<open>Grids in real and Fourier space\<close>

text \<open>
  \<^verbatim>\<open>np.linspace(start, stop, num)\<close>: \<open>num\<close> evenly spaced samples, the step being
  \<open>(stop - start) / (num - 1)\<close>; a single sample is \<open>start\<close>; a negative \<open>num\<close> raises
  \<^verbatim>\<open>ValueError\<close>.
\<close>

definition linspace :: "real \<Rightarrow> real \<Rightarrow> int \<Rightarrow> error + real list" where
  "linspace start stop num =
     (if num < 0 then Inl ValueError
      else if num = 1 then Inr [start]
      else Inr (map (\<lambda>j. start + real j * ((stop - start) / real_of_int (num - 1)))
                  [0..<nat num]))"

text \<open>\<^verbatim>\<open>int(ngrid/2)\<close>: true division, then truncation towards zero.\<close>

definition int_half :: "int \<Rightarrow> int" where
  "int_half n = (if 0 \<le> n then n div 2 else - ((- n) div 2))"

record grid =
  half_points :: int
  half_width :: real
  dx :: real
  x_grid :: "real list"
  dxi :: real
  xi_grid :: "real list"

text \<open>
  The driver's grid cell, statement by statement:
  \<^verbatim>\<open>
  N = int(ngrid/2)
  b = xwidth/2
  dx = xwidth/ngrid
  x = dx * np.linspace(-N, N-1, 2*N)
  dxi = 2*np.pi/xwidth
  xi = dxi * np.linspace(-N, N-1, 2*N)
  \<close>
  \<open>xwidth/ngrid\<close> and \<open>2*np.pi/xwidth\<close> divide Python scalars and raise
  \<^verbatim>\<open>ZeroDivisionError\<close> on a zero divisor. There is no other check on \<open>ngrid\<close>.
\<close>

definition build_grid :: "real \<Rightarrow> int \<Rightarrow> error + grid" where
  "build_grid xwidth ngrid =
     (let N = int_half ngrid;
          b = xwidth / 2
      in if ngrid = 0 then Inl ZeroDivisionError
         else
           let dx = xwidth / real_of_int ngrid
           in (case linspace (real_of_int (- N)) (real_of_int (N - 1)) (2 * N) of
                 Inl e \<Rightarrow> Inl e
               | Inr ls \<Rightarrow>
                   (let x = map (\<lambda>v. dx * v) ls
                    in if xwidth = 0 then Inl ZeroDivisionError
                       else
                         let dxi = 2 * pi / xwidth
                         in (case linspace (real_of_int (- N)) (real_of_int (N - 1)) (2 * N) of
                               Inl e \<Rightarrow> Inl e
                             | Inr ls' \<Rightarrow>
                                 Inr \<lparr> half_points = N, half_width = b, dx = dx, x_grid = x,
                                       dxi = dxi, xi_grid = map (\<lambda>v. dxi * v) ls' \<rparr>))))"

text \<open>
  The spec's wording of the two grids: the step times the integers \<open>-n/2 .. n/2-1\<close>.
\<close>

definition centred_range :: "int \<Rightarrow> real list" where
  "centred_range n = map (\<lambda>j. real_of_int (int j - n div 2)) [0..<nat n]"

text \<open>The spec's precondition on the number of grid points.\<close>

definition power_of_two :: "int \<Rightarrow> bool" where
  "power_of_two n = (\<exists>k \<le> nat n. n = 2 ^ k)"

subsection \<open>The jump-diffusion characteristic function\<close>

text \<open>
  \<^verbatim>\<open>muRN = r-q-0.5*sigma**2 - lmbda*(np.exp(mu_j + 0.5*sigma_j**2) - 1)\<close>
\<close>

definition muRN :: "real \<Rightarrow> real \<Rightarrow> real \<Rightarrow> real \<Rightarrow> real \<Rightarrow> real \<Rightarrow> real" where
  "muRN r q sigma lmbda mu_j sigma_j =
     r - q - 0.5 * sigma\<^sup>2 - lmbda * (exp (mu_j + 0.5 * sigma_j\<^sup>2) - 1)"

text \<open>
  The characteristic exponent, as the driver writes it for an argument \<open>xia\<close>:
  \<^verbatim>\<open>psi = 1j*muRN*xia - 0.5*(sigma*xia)**2
        + lmbda*(np.exp(1j*mu_j*xia - 0.5*(sigma_j*xia)**2) - 1)\<close>
  and the characteristic function \<^verbatim>\<open>np.exp(psi*T)\<close>.
\<close>

definition psi_exponent :: "real \<Rightarrow> real \<Rightarrow> real \<Rightarrow> real \<Rightarrow> real \<Rightarrow> complex \<Rightarrow> complex" where
  "psi_exponent mu sigma lmbda mu_j sigma_j xia =
     \<i> * of_real mu * xia - 0.5 * (of_real sigma * xia)\<^sup>2
       + of_real lmbda * (exp (\<i> * of_real mu_j * xia - 0.5 * (of_real sigma_j * xia)\<^sup>2) - 1)"

definition char_fn :: "real \<Rightarrow> real \<Rightarrow> real \<Rightarrow> real \<Rightarrow> real \<Rightarrow> real \<Rightarrow> complex \<Rightarrow> complex" where
  "char_fn mu sigma lmbda mu_j sigma_j T xia =
     exp (psi_exponent mu sigma lmbda mu_j sigma_j xia * of_real T)"

text \<open>
  The three samplings of the driver: \<^verbatim>\<open>xia = xi + 1j*alpha\<close> for the call,
  \<^verbatim>\<open>xia = xi - 1j*alpha\<close> for the put, and \<open>xi\<close> itself for the density.
\<close>

definition psi_c :: "real \<Rightarrow> real \<Rightarrow> real \<Rightarrow> real \<Rightarrow> real \<Rightarrow> real \<Rightarrow> real \<Rightarrow> real list \<Rightarrow> complex list" where
  "psi_c mu sigma lmbda mu_j sigma_j T alpha xi =
     map (\<lambda>v. char_fn mu sigma lmbda mu_j sigma_j T (of_real v + \<i> * of_real alpha)) xi"

definition psi_p :: "real \<Rightarrow> real \<Rightarrow> real \<Rightarrow> real \<Rightarrow> real \<Rightarrow> real \<Rightarrow> real \<Rightarrow> real list \<Rightarrow> complex list" where
  "psi_p mu sigma lmbda mu_j sigma_j T alpha xi =
     map (\<lambda>v. char_fn mu sigma lmbda mu_j sigma_j T (of_real v - \<i> * of_real alpha)) xi"

definition psi_density :: "real \<Rightarrow> real \<Rightarrow> real \<Rightarrow> real \<Rightarrow> real \<Rightarrow> real \<Rightarrow> real list \<Rightarrow> complex list" where
  "psi_density mu sigma lmbda mu_j sigma_j T xi =
     map (\<lambda>v. char_fn mu sigma lmbda mu_j sigma_j T (of_real v)) xi"

text \<open>
  Modelled from the spec: the diffusion variant, whose notebook is not among the source
  files. Its exponent is \<open>i z \<mu> T - 1/2 z\<^sup>2 \<sigma>\<^sup>2 T\<close>.
\<close>

definition diffusion_exponent :: "real \<Rightarrow> real \<Rightarrow> real \<Rightarrow> complex \<Rightarrow> complex" where
  "diffusion_exponent mu sigma T z =
     \<i> * z * of_real mu * of_real T - (1/2) * z\<^sup>2 * (of_real sigma)\<^sup>2 * of_real T"

subsection \<open>The payoff and its Fourier transform\<close>

text \<open>
  \<^verbatim>\<open>np.log(X/C)\<close> on positive prices. A zero \<open>C\<close> raises \<^verbatim>\<open>ZeroDivisionError\<close> (Python
  scalars); a non-positive ratio has no finite logarithm.
\<close>

definition log_ratio :: "real \<Rightarrow> real \<Rightarrow> error + real" where
  "log_ratio X C =
     (if C = 0 then Inl ZeroDivisionError
      else if X / C \<le> 0 then Inl NotFinite
      else Inr (ln (X / C)))"

text \<open>Division of array entries under \<^verbatim>\<open>np.errstate\<close>: a zero divisor gives a non-finite entry.\<close>

definition cdiv :: "complex \<Rightarrow> complex \<Rightarrow> complex option" where
  "cdiv z w = (if w = 0 then None else Some (z / w))"

text \<open>
  One entry of the damped payoff:
  \<^verbatim>\<open>g = np.exp(alpha*x) * np.maximum(S - K, 0) * (S>=L).astype(int) * (S<=U).astype(int)\<close>
  with \<open>K - S\<close> for the put, where \<^verbatim>\<open>S = C*np.exp(x)\<close>.
\<close>

definition damped_payoff :: "real \<Rightarrow> real \<Rightarrow> real \<Rightarrow> real \<Rightarrow> real \<Rightarrow> int \<Rightarrow> real \<Rightarrow> real" where
  "damped_payoff alpha K L U C call xv =
     (let S = C * exp xv
      in exp (alpha * xv) * max (if call = 1 then S - K else K - S) 0
           * (if L \<le> S then 1 else 0) * (if S \<le> U then 1 else 0))"

text \<open>
  One entry of the transform before the special cases:
  \<^verbatim>\<open>
  xi_2 = alpha + 1j*xi
  G = C*((np.exp(b * (1 + xi_2)) - np.exp(a * (1 + xi_2))) / (1 + xi_2)
         - (np.exp(k + b*xi_2) - np.exp(k + a*xi_2)) / xi_2)
  \<close>
\<close>

definition G_entry :: "real \<Rightarrow> real \<Rightarrow> real \<Rightarrow> real \<Rightarrow> real \<Rightarrow> real \<Rightarrow> complex option" where
  "G_entry alpha C k a b xiv =
     (let xi_2 = of_real alpha + \<i> * of_real xiv
      in case cdiv (exp (of_real b * (1 + xi_2)) - exp (of_real a * (1 + xi_2))) (1 + xi_2) of
           None \<Rightarrow> None
         | Some t1 \<Rightarrow>
             (case cdiv (exp (of_real k + of_real b * xi_2) - exp (of_real k + of_real a * xi_2))
                     xi_2 of
                None \<Rightarrow> None
              | Some t2 \<Rightarrow> Some (of_real C * (t1 - t2))))"

text \<open>
  The function \<^verbatim>\<open>payoff(x, xi, alpha, K, L, U, C, call=1)\<close>, returning \<open>(g, G, S)\<close>. The
  last step overwrites the entry at index \<open>floor(len(G)/2)\<close>:
  \<^verbatim>\<open>
  if alpha == 0:
      G[int(np.floor(len(G)/2))] = C*(np.exp(b)-np.exp(a)-np.exp(k)*(b-a))
  elif alpha == -1:
      G[int(np.floor(len(G)/2))] = C*(b-a+np.exp(k-b)-np.exp(k-a))
  \<close>
  which raises \<^verbatim>\<open>IndexError\<close> on an empty array. The function makes no other check.
\<close>

definition payoff ::
  "real list \<Rightarrow> real list \<Rightarrow> real \<Rightarrow> real \<Rightarrow> real \<Rightarrow> real \<Rightarrow> real \<Rightarrow> int
     \<Rightarrow> error + (real list \<times> complex option list \<times> real list)" where
  "payoff x xi alpha K L U C call =
     (let S = map (\<lambda>v. C * exp v) x;
          g = map (damped_payoff alpha K L U C call) x
      in case log_ratio L C of
           Inl e \<Rightarrow> Inl e
         | Inr l \<Rightarrow>
             (case log_ratio K C of
                Inl e \<Rightarrow> Inl e
              | Inr k \<Rightarrow>
                  (case log_ratio U C of
                     Inl e \<Rightarrow> Inl e
                   | Inr u \<Rightarrow>
                       (let a = (if call = 1 then max l k else min k u);
                            b = (if call = 1 then u else l);
                            G = map (G_entry alpha C k a b) xi;
                            mid = length G div 2
                        in if alpha = 0 then
                             (if mid < length G
                              then Inr (g, G[mid := Some (of_real
                                          (C * (exp b - exp a - exp k * (b - a))))], S)
                              else Inl IndexError)
                           else if alpha = - 1 then
                             (if mid < length G
                              then Inr (g, G[mid := Some (of_real
                                          (C * (b - a + exp (k - b) - exp (k - a))))], S)
                              else Inl IndexError)
                           else Inr (g, G, S)))))"

text \<open>
  The spec's closed form for the interval \<open>[a, b]\<close>,
  \<open>G(\<xi>) = scale * ((exp(b(1+\<alpha>+i\<xi>)) - exp(a(1+\<alpha>+i\<xi>)))/(1+\<alpha>+i\<xi>)
            - exp(k) * (exp(b(\<alpha>+i\<xi>)) - exp(a(\<alpha>+i\<xi>)))/(\<alpha>+i\<xi>))\<close>,
  undefined (\<open>None\<close>) where a denominator vanishes.
\<close>

definition closed_form :: "real \<Rightarrow> real \<Rightarrow> real \<Rightarrow> real \<Rightarrow> real \<Rightarrow> real \<Rightarrow> complex option" where
  "closed_form scale alpha k a b xiv =
     (let z1 = 1 + of_real alpha + \<i> * of_real xiv;
          z0 = of_real alpha + \<i> * of_real xiv
      in if z1 = 0 \<or> z0 = 0 then None
         else Some (of_real scale *
                ((exp (of_real b * z1) - exp (of_real a * z1)) / z1
                 - exp (of_real k) * (exp (of_real b * z0) - exp (of_real a * z0)) / z0)))"

text \<open>
  The spec's integration interval \<open>[a, b]\<close>: \<open>[max(l,k), u]\<close> for a call, \<open>[min(k,u), l]\<close> for
  a put. The option right is the source's flag \<open>call\<close>, a call when it equals 1.
\<close>

definition interval_lower :: "int \<Rightarrow> real \<Rightarrow> real \<Rightarrow> real \<Rightarrow> real" where
  "interval_lower call l k u = (if call = 1 then max l k else min k u)"

definition interval_upper :: "int \<Rightarrow> real \<Rightarrow> real \<Rightarrow> real \<Rightarrow> real" where
  "interval_upper call l k u = (if call = 1 then u else l)"

text \<open>
  A frequency grid is centred when it is not empty and its zero frequency sits at index
  \<open>floor(len/2)\<close> and nowhere else.
\<close>

definition centred :: "real list \<Rightarrow> bool" where
  "centred xi \<longleftrightarrow> xi \<noteq> [] \<and> (\<forall>j < length xi. xi ! j = 0 \<longleftrightarrow> j = length xi div 2)"

subsection \<open>Discrete transforms, quadrature and interpolation\<close>

text \<open>
  The numpy and scipy functions the driver calls, by their documented meaning.

  \<^verbatim>\<open>np.fft.ifftshift(a)\<close> is \<^verbatim>\<open>np.roll(a, -(n//2))\<close>: entry \<open>i\<close> of the result is entry
  \<open>(i + n//2) mod n\<close> of \<open>a\<close>. \<^verbatim>\<open>np.fft.fftshift(a)\<close> is \<^verbatim>\<open>np.roll(a, n//2)\<close>.
\<close>

definition ifftshift :: "'a list \<Rightarrow> 'a list" where
  "ifftshift xs = rotate (length xs div 2) xs"

definition fftshift :: "'a list \<Rightarrow> 'a list" where
  "fftshift xs = rotate (length xs - length xs div 2) xs"

text \<open>
  \<^verbatim>\<open>np.fft.fft(a)\<close> is the discrete Fourier transform
  \<open>A[k] = sum over m < n of a[m] * exp(-2 pi i m k / n)\<close>; the fast algorithm computes this
  sum. An empty array raises \<^verbatim>\<open>ValueError\<close>.
\<close>

definition fft :: "complex list \<Rightarrow> error + complex list" where
  "fft xs =
     (if xs = [] then Inl ValueError
      else Inr (map (\<lambda>k. \<Sum>m<length xs.
                    xs ! m * exp (- (2 * of_real pi * \<i> * of_nat m * of_nat k / of_nat (length xs))))
                  [0..<length xs]))"

text \<open>
  \<^verbatim>\<open>np.trapz(y)\<close> with the default spacing 1:
  \<^verbatim>\<open>(d * (y[1:] + y[:-1]) / 2.0).sum()\<close>.
\<close>

definition trapz :: "'a::field list \<Rightarrow> 'a" where
  "trapz ys = (\<Sum>j<length ys - 1. (ys ! (j + 1) + ys ! j) / 2)"

text \<open>
  The product of two arrays, entry by entry. Arrays of different lengths are refused with
  \<^verbatim>\<open>ValueError\<close>, unless one of them has a single entry, which is then used for every
  position.
\<close>

definition np_mul :: "complex list \<Rightarrow> complex list \<Rightarrow> error + complex list" where
  "np_mul xs ys =
     (if length xs = length ys then Inr (map2 (*) xs ys)
      else if length xs = 1 then Inr (map (\<lambda>v. hd xs * v) ys)
      else if length ys = 1 then Inr (map (\<lambda>v. v * hd ys) xs)
      else Inl ValueError)"

text \<open>
  \<^verbatim>\<open>interp1d(xs, ys, kind='slinear')(t)\<close>: the piecewise linear interpolant through the
  points \<open>(xs[i], ys[i])\<close>, evaluated at \<open>t\<close>. scipy sorts the points by abscissa, refuses
  arrays of different lengths, fewer than two points and repeated abscissae, and raises
  \<^verbatim>\<open>ValueError\<close> for a \<open>t\<close> outside the range of \<open>xs\<close>.
\<close>

fun interp_sorted :: "(real \<times> real) list \<Rightarrow> real \<Rightarrow> error + real" where
  "interp_sorted ((x0, y0) # (x1, y1) # ps) t =
     (if x0 \<le> t \<and> t \<le> x1 then Inr (y0 + (y1 - y0) * (t - x0) / (x1 - x0))
      else interp_sorted ((x1, y1) # ps) t)"
| "interp_sorted ps t = Inl ValueError"

definition interp1d :: "real list \<Rightarrow> real list \<Rightarrow> real \<Rightarrow> error + real" where
  "interp1d xs ys t =
     (if length xs = length ys then
        (if 2 \<le> length xs then
           (if distinct xs then interp_sorted (sort_key fst (zip xs ys)) t
            else Inl ValueError)
         else Inl ValueError)
      else Inl ValueError)"

subsection \<open>Prices and the terminal density\<close>

text \<open>
  The curve of discounted values over the price grid, for an integrand \<open>H\<close> in Fourier space:
  \<^verbatim>\<open>np.exp(-r*T)*np.real(np.fft.fftshift(np.fft.fft(np.fft.ifftshift(H))))/xwidth\<close>.
  Dividing an array by a zero \<open>xwidth\<close> gives non-finite entries.
\<close>

definition plancherel_curve :: "real \<Rightarrow> real \<Rightarrow> real \<Rightarrow> complex list \<Rightarrow> error + real list" where
  "plancherel_curve r T xwidth H =
     (case fft (ifftshift H) of
        Inl e \<Rightarrow> Inl e
      | Inr A \<Rightarrow>
          (if xwidth = 0 then Inl NotFinite
           else Inr (map (\<lambda>z. exp (- r * T) * Re z / xwidth) (fftshift A))))"

text \<open>
  The price by the Plancherel theorem, conjugating the characteristic function:
  \<^verbatim>\<open>
  c = np.exp(-r*T)*np.real(np.fft.fftshift(np.fft.fft(np.fft.ifftshift(Gc*np.conj(psi_c)))))/xwidth
  Vc = interp1d(S, c, kind='slinear')(S0)
  \<close>
\<close>

definition price_conj_psi ::
  "real \<Rightarrow> real \<Rightarrow> real \<Rightarrow> real list \<Rightarrow> real \<Rightarrow> complex list \<Rightarrow> complex list \<Rightarrow> error + real" where
  "price_conj_psi r T xwidth S S0 G psi =
     (case np_mul G (map cnj psi) of
        Inl e \<Rightarrow> Inl e
      | Inr H \<Rightarrow>
          (case plancherel_curve r T xwidth H of
             Inl e \<Rightarrow> Inl e
           | Inr c \<Rightarrow> interp1d S c S0))"

text \<open>
  The same, conjugating the payoff transform instead:
  \<^verbatim>\<open>
  c = np.exp(-r*T)*np.real(np.fft.fftshift(np.fft.fft(np.fft.ifftshift(np.conj(Gc)*psi_c))))/xwidth
  Vc = interp1d(S, c, kind='slinear')(S0)
  \<close>
\<close>

definition price_conj_G ::
  "real \<Rightarrow> real \<Rightarrow> real \<Rightarrow> real list \<Rightarrow> real \<Rightarrow> complex list \<Rightarrow> complex list \<Rightarrow> error + real" where
  "price_conj_G r T xwidth S S0 G psi =
     (case np_mul (map cnj G) psi of
        Inl e \<Rightarrow> Inl e
      | Inr H \<Rightarrow>
          (case plancherel_curve r T xwidth H of
             Inl e \<Rightarrow> Inl e
           | Inr c \<Rightarrow> interp1d S c S0))"

text \<open>
  The price by trapezoidal integration in Fourier space:
  \<^verbatim>\<open>Vc = np.exp(-r*T)*np.real(np.trapz(np.conj(Gc)*psi_c))/xwidth\<close>.
\<close>

definition price_trapz :: "real \<Rightarrow> real \<Rightarrow> real \<Rightarrow> complex list \<Rightarrow> complex list \<Rightarrow> error + real" where
  "price_trapz r T xwidth G psi =
     (case np_mul (map cnj G) psi of
        Inl e \<Rightarrow> Inl e
      | Inr H \<Rightarrow>
          (if xwidth = 0 then Inl NotFinite
           else Inr (exp (- r * T) * Re (trapz H) / xwidth)))"

text \<open>
  The terminal density:
  \<^verbatim>\<open>f = np.real(np.fft.fftshift(np.fft.fft(np.fft.ifftshift(psi))))/xwidth\<close>.
\<close>

definition recover_density :: "real \<Rightarrow> complex list \<Rightarrow> error + real list" where
  "recover_density xwidth psi =
     (case fft (ifftshift psi) of
        Inl e \<Rightarrow> Inl e
      | Inr A \<Rightarrow>
          (if xwidth = 0 then Inl NotFinite
           else Inr (map (\<lambda>z. Re z / xwidth) (fftshift A))))"

text \<open>
  The notebook integrates a payoff against the density by \<^verbatim>\<open>np.trapz(gc*f*dx)\<close>. The
  spec's check that the density integrates to one is the same integral with the payoff factor
  left out: \<^verbatim>\<open>np.trapz(f*dx)\<close>.
\<close>

definition density_mass :: "real \<Rightarrow> real list \<Rightarrow> real" where
  "density_mass step f = trapz (map (\<lambda>v. v * step) f)"

subsection \<open>The Heston characteristic function\<close>

text \<open>The principal logarithm of a non-zero complex number, \<^verbatim>\<open>np.log\<close> on complex values.\<close>

definition clog :: "complex \<Rightarrow> complex" where
  "clog z = Complex (ln (cmod z)) (Arg z)"

text \<open>The coefficient \<open>b\<close> of \<^verbatim>\<open>f_Heston\<close>: \<open>kappa + lmbda - rho * sigma\<close> for \<open>j = 1\<close>, \<open>kappa + lmbda\<close> otherwise.\<close>

definition heston_b :: "real \<Rightarrow> real \<Rightarrow> real \<Rightarrow> real \<Rightarrow> int \<Rightarrow> real" where
  "heston_b kappa lmbda rho sigma j =
     (if j = 1 then kappa + lmbda - rho * sigma else kappa + lmbda)"

text \<open>
  The function of the Heston notebook:
  \<^verbatim>\<open>
  def f_Heston(phi, S0, v0, T, r, q, kappa, theta, sigma, rho, lmbda, j):
      if j == 1:
          u = 0.5
          b = kappa + lmbda - rho * sigma
      else:
          u = -0.5
          b = kappa + lmbda
      a = kappa * theta
      d = np.sqrt((rho * sigma * phi * 1j - b)**2 - sigma**2 * (2 * u * phi * 1j - phi**2))
      g = (b - rho * sigma * phi * 1j + d) / (b - rho * sigma * phi * 1j - d)
      C = (r - q) * phi * 1j * T + (a / sigma**2) \
              * ((b - rho * sigma * phi * 1j + d) * T - 2 * np.log((1 - g * np.exp(d * T))/(1 - g)))
      D = (b - rho * sigma * phi * 1j + d) / sigma**2 * ((1 - np.exp(d * T)) / (1 - g * np.exp(d * T)))
      return np.exp(C + D * v0 + 1j * phi * np.log(S0))
  \<close>
  \<open>a / sigma**2\<close> divides Python scalars and raises \<^verbatim>\<open>ZeroDivisionError\<close> for \<open>sigma = 0\<close>.
  The divisions that define \<open>g\<close>, the argument of the logarithm and \<open>D\<close> are numpy
  divisions: a zero divisor gives an infinite or undefined value and no exception, and so
  do the logarithm of zero and \<^verbatim>\<open>np.log(S0)\<close> for a non-positive \<open>S0\<close>; the value returned
  is then not a finite number, which the model reports as \<open>Inl NotFinite\<close>.
\<close>

definition f_Heston ::
  "real \<Rightarrow> real \<Rightarrow> real \<Rightarrow> real \<Rightarrow> real \<Rightarrow> real \<Rightarrow> real \<Rightarrow> real \<Rightarrow> real \<Rightarrow> real \<Rightarrow> real \<Rightarrow> int
     \<Rightarrow> error + complex" where
  "f_Heston phi S0 v0 T r q kappa theta sigma rho lmbda j =
     (let u = (if j = 1 then 0.5 else - 0.5);
          b = heston_b kappa lmbda rho sigma j;
          a = kappa * theta;
          d = csqrt ((of_real (rho * sigma * phi) * \<i> - of_real b)\<^sup>2
                     - of_real (sigma\<^sup>2) * (of_real (2 * u * phi) * \<i> - of_real (phi\<^sup>2)));
          w = of_real b - of_real (rho * sigma * phi) * \<i>
      in if sigma = 0 then Inl ZeroDivisionError
         else if w - d = 0 then Inl NotFinite
         else
           let g = (w + d) / (w - d)
           in if 1 - g = 0 then Inl NotFinite
              else if 1 - g * exp (d * of_real T) = 0 then Inl NotFinite
              else if S0 \<le> 0 then Inl NotFinite
              else
                let C = of_real ((r - q) * phi) * \<i> * of_real T
                          + of_real (a / sigma\<^sup>2)
                              * ((w + d) * of_real T
                                 - 2 * clog ((1 - g * exp (d * of_real T)) / (1 - g)));
                    D = (w + d) / of_real (sigma\<^sup>2)
                          * ((1 - exp (d * of_real T)) / (1 - g * exp (d * of_real T)))
                in Inr (exp (C + D * of_real v0 + \<i> * of_real phi * of_real (ln S0))))"

subsection \<open>Auxiliary notions for the proofs\<close>

text \<open>The kernel of the discrete Fourier transform of length \<open>n\<close>.\<close>

definition omega :: "nat \<Rightarrow> nat \<Rightarrow> nat \<Rightarrow> complex" where
  "omega n m k = exp (- (2 * of_real pi * \<i> * of_nat m * of_nat k / of_nat n))"

text \<open>The transform of a non-empty list, without the error case.\<close>

definition dft :: "complex list \<Rightarrow> complex list" where
  "dft xs = map (\<lambda>k. \<Sum>m<length xs. xs ! m * omega (length xs) m k) [0..<length xs]"

text \<open>
  The characteristic function \<open>exp(-i \<xi> b)\<close> of the unit mass at the left end \<open>-b\<close> of the
  real-space grid, sampled on the frequency grid of \<open>2N\<close> points \<open>\<xi>\<^sub>j = (j - N) * 2 pi / (2b)\<close>:
  its values are \<open>(-1)\<^bsup>j - N\<^esup>\<close>. It is the jump-diffusion characteristic function for
  \<open>sigma = 0\<close>, \<open>lambda = 0\<close> and \<open>muRN * T = -b\<close>.
\<close>

definition psi_edge :: "nat \<Rightarrow> complex list" where
  "psi_edge N = map (\<lambda>j. (- 1) ^ (j + N)) [0..<2 * N]"

section \<open>Lemmas\<close>

subsection \<open>Grids\<close>

lemma int_half_even: "int_half (2 * m) = m"
proof -
  have "(- (2 * m)) div 2 = - m"
    by presburger
  then show ?thesis
    by (simp add: int_half_def)
qed

lemma linspace_centred:
  assumes "0 < m"
  shows "linspace (real_of_int (- m)) (real_of_int (m - 1)) (2 * m)
           = Inr (centred_range (2 * m))"
proof -
  have step: "(real_of_int (m - 1) - real_of_int (- m)) / real_of_int (2 * m - 1) = 1"
    using assms by simp
  have "map (\<lambda>j. real_of_int (- m) + real j * 1) [0..<nat (2 * m)]
          = map (\<lambda>j. real_of_int (int j - (2 * m) div 2)) [0..<nat (2 * m)]"
    by (rule map_cong) simp_all
  then show ?thesis
    using assms unfolding linspace_def centred_range_def step by simp
qed

lemma length_centred_range: "length (centred_range n) = nat n"
  by (simp add: centred_range_def)

lemma build_grid_even:
  assumes "0 < m" and "xwidth \<noteq> 0"
  shows "build_grid xwidth (2 * m) =
           Inr \<lparr> half_points = m, half_width = xwidth / 2,
                 dx = xwidth / real_of_int (2 * m),
                 x_grid = map (\<lambda>v. xwidth / real_of_int (2 * m) * v) (centred_range (2 * m)),
                 dxi = 2 * pi / xwidth,
                 xi_grid = map (\<lambda>v. 2 * pi / xwidth * v) (centred_range (2 * m)) \<rparr>"
  using assms
  by (simp add: build_grid_def int_half_even linspace_centred Let_def del: of_int_diff of_int_minus)

lemma linspace_centred0:
  assumes "0 \<le> m"
  shows "linspace (real_of_int (- m)) (real_of_int (m - 1)) (2 * m)
           = Inr (centred_range (2 * m))"
proof (cases "m = 0")
  case True
  then show ?thesis by (simp add: linspace_def centred_range_def)
next
  case False
  with assms have "0 < m" by simp
  then show ?thesis by (rule linspace_centred)
qed

lemma build_grid_pos:
  assumes "0 < n" and "xwidth \<noteq> 0"
  shows "build_grid xwidth n =
           Inr \<lparr> half_points = n div 2, half_width = xwidth / 2,
                 dx = xwidth / real_of_int n,
                 x_grid = map (\<lambda>v. xwidth / real_of_int n * v) (centred_range (2 * (n div 2))),
                 dxi = 2 * pi / xwidth,
                 xi_grid = map (\<lambda>v. 2 * pi / xwidth * v) (centred_range (2 * (n div 2))) \<rparr>"
proof -
  have h: "int_half n = n div 2" and m: "0 \<le> n div 2"
    using assms(1) by (simp_all add: int_half_def)
  show ?thesis
    using assms
    by (simp add: build_grid_def h linspace_centred0 [OF m] Let_def del: of_int_diff of_int_minus)
qed

lemma build_grid_fails_iff:
  "isl (build_grid xwidth ngrid) \<longleftrightarrow> ngrid = 0 \<or> ngrid \<le> - 2 \<or> xwidth = 0"
proof -
  have neg: "int_half ngrid < 0 \<longleftrightarrow> ngrid \<le> - 2"
    unfolding int_half_def by (cases "0 \<le> ngrid") (simp_all, presburger)
  show ?thesis
    by (auto simp: build_grid_def linspace_def Let_def neg split: sum.splits if_splits)
qed

subsection \<open>The payoff transform\<close>

lemma z0_zero: "complex_of_real alpha + \<i> * of_real v = 0 \<longleftrightarrow> alpha = 0 \<and> v = 0"
  by (simp add: complex_eq_iff)

lemma z1_zero: "1 + (complex_of_real alpha + \<i> * of_real v) = 0 \<longleftrightarrow> alpha = - 1 \<and> v = 0"
  by (auto simp add: complex_eq_iff)

lemma z1_zero': "1 + complex_of_real alpha + \<i> * of_real v = 0 \<longleftrightarrow> alpha = - 1 \<and> v = 0"
  by (auto simp add: complex_eq_iff)

text \<open>The source's expression and the spec's closed form are the same function.\<close>

lemma G_entry_closed: "G_entry alpha C k a b v = closed_form C alpha k a b v"
  by (simp add: G_entry_def closed_form_def cdiv_def Let_def z0_zero z1_zero z1_zero' exp_add
      add.assoc right_diff_distrib split: option.splits)

lemma closed_form_None_iff:
  "closed_form C alpha k a b v = None \<longleftrightarrow> (alpha = 0 \<or> alpha = - 1) \<and> v = 0"
  by (auto simp: closed_form_def Let_def z0_zero z1_zero')

lemma log_ratio_pos: "0 < C \<Longrightarrow> 0 < X \<Longrightarrow> log_ratio X C = Inr (ln (X / C))"
  using divide_pos_pos [of X C] by (simp add: log_ratio_def not_le)

text \<open>The function on positive prices, with the spec's names for its parts.\<close>

lemma payoff_pos:
  assumes "0 < C" "0 < K" "0 < L" "0 < U"
  shows "payoff x xi alpha K L U C call =
     (let k = ln (K / C);
          a = interval_lower call (ln (L / C)) k (ln (U / C));
          b = interval_upper call (ln (L / C)) k (ln (U / C));
          G = map (closed_form C alpha k a b) xi
      in if alpha = 0 then
           (if xi = [] then Inl IndexError
            else Inr (map (damped_payoff alpha K L U C call) x,
                      G[length xi div 2 := Some (of_real (C * (exp b - exp a - exp k * (b - a))))],
                      map (\<lambda>v. C * exp v) x))
         else if alpha = - 1 then
           (if xi = [] then Inl IndexError
            else Inr (map (damped_payoff alpha K L U C call) x,
                      G[length xi div 2 := Some (of_real (C * (b - a + exp (k - b) - exp (k - a))))],
                      map (\<lambda>v. C * exp v) x))
         else Inr (map (damped_payoff alpha K L U C call) x, G, map (\<lambda>v. C * exp v) x))"
proof -
  have G: "G_entry alpha C k a b = closed_form C alpha k a b" for k a b
    by (rule ext) (rule G_entry_closed)
  have mid: "length xi div 2 < length xi \<longleftrightarrow> xi \<noteq> []"
    by (cases xi) simp_all
  show ?thesis
    unfolding payoff_def log_ratio_pos [OF assms(1) assms(3)] log_ratio_pos [OF assms(1) assms(2)]
      log_ratio_pos [OF assms(1) assms(4)]
    by (simp add: Let_def G mid interval_lower_def interval_upper_def)
qed

lemma payoff_returns:
  assumes "0 < C" "0 < K" "0 < L" "0 < U" and "xi \<noteq> []"
  shows "\<not> isl (payoff x xi alpha K L U C call)"
  using assms(5) by (simp add: payoff_pos [OF assms(1-4)] Let_def)

lemma ln_half: "ln (1/2 :: real) = - ln 2"
  by (simp add: ln_div)

lemma exp_ln2: "exp (complex_of_real (ln 2)) = 2"
  by (simp add: exp_of_real)

lemma exp_ln2_twice: "exp (complex_of_real (ln 2) * 2) = 4"
proof -
  have "exp (complex_of_real (ln 2) * 2)
          = exp (complex_of_real (ln 2)) * exp (complex_of_real (ln 2))"
    unfolding mult_2_right by (rule exp_add)
  then show ?thesis
    by (simp only: exp_ln2) simp
qed






lemma build_grid_centred:
  assumes "0 < n" and "even n" and "xwidth \<noteq> 0" and "build_grid xwidth n = Inr gr"
  shows "centred (xi_grid gr)"
proof -
  from \<open>even n\<close> obtain m where n: "n = 2 * m" ..
  with \<open>0 < n\<close> have m: "0 < m" by simp
  have xi: "xi_grid gr = map (\<lambda>v. 2 * pi / xwidth * v) (centred_range (2 * m))"
    using assms(4) build_grid_even [OF m assms(3)] unfolding n by auto
  have len: "length (xi_grid gr) = nat (2 * m)"
    by (simp add: xi length_centred_range)
  have "(xi_grid gr ! j = 0) = (j = length (xi_grid gr) div 2)" if "j < length (xi_grid gr)" for j
  proof -
    have j: "j < nat (2 * m)" using that len by simp
    have "xi_grid gr ! j = 2 * pi / xwidth * real_of_int (int j - m)"
      using j by (simp add: xi centred_range_def)
    moreover have "length (xi_grid gr) div 2 = nat m"
      using m by (simp add: len nat_mult_distrib)
    ultimately show ?thesis
      using m \<open>xwidth \<noteq> 0\<close> by auto
  qed
  moreover have "xi_grid gr \<noteq> []"
    using len m by auto
  ultimately show ?thesis
    by (simp add: centred_def)
qed

subsection \<open>Roots of unity\<close>

lemma omega_power: "omega n m k = omega n m 1 ^ k"
proof -
  have "omega n m k = exp (of_nat k * (- (2 * of_real pi * \<i> * of_nat m * of_nat 1 / of_nat n)))"
    by (simp add: omega_def algebra_simps)
  also have "\<dots> = omega n m 1 ^ k"
    unfolding exp_of_nat_mult by (simp add: omega_def)
  finally show ?thesis .
qed

lemma omega_cis: "omega n m k = cis (- (2 * pi * real m * real k / real n))"
  by (simp add: omega_def cis_conv_exp algebra_simps)

lemma omega_zero_left [simp]: "omega n 0 k = 1"
  by (simp add: omega_def)

lemma omega_zero_right [simp]: "omega n m 0 = 1"
  by (simp add: omega_def)

lemma omega_commute: "omega n m k = omega n k m"
  by (simp add: omega_def mult.commute mult.left_commute)

lemma omega_period: "0 < n \<Longrightarrow> omega n m 1 ^ n = 1"
proof -
  assume n: "0 < n"
  have "omega n m 1 ^ n = omega n m n"
    by (rule omega_power [symmetric])
  also have "\<dots> = cis (- (2 * pi * real m))"
    using n by (simp add: omega_cis)
  also have "\<dots> = 1"
    using cis_multiple_2pi [of "- real m"] by (simp add: mult.commute)
  finally show ?thesis .
qed

lemma omega_ne_1:
  assumes "0 < m" and "m < n"
  shows "omega n m 1 \<noteq> 1"
proof
  assume "omega n m 1 = 1"
  then have "cos (2 * pi * real m / real n) = 1"
    by (simp add: omega_cis complex_eq_iff)
  then obtain k :: int where k: "2 * pi * real m / real n = of_int k * 2 * pi"
    unfolding cos_one_2pi_int by blast
  have "0 < real n"
    using assms by simp
  with k have "2 * pi * real m = 2 * pi * (of_int k * real n)"
    by (simp add: field_simps)
  then have "real m = of_int k * real n"
    by simp
  then have "real_of_int (int m) = real_of_int (k * int n)"
    by simp
  then have eq: "int m = k * int n"
    by (simp only: of_int_eq_iff)
  show False
  proof (cases "k \<le> 0")
    case True
    then have "k * int n \<le> 0"
      by (simp add: mult_nonpos_nonneg)
    with eq assms show False by simp
  next
    case False
    then have "1 * int n \<le> k * int n"
      by (intro mult_right_mono) simp_all
    with eq assms show False by simp
  qed
qed

lemma omega_sum:
  assumes "m < n"
  shows "(\<Sum>k<n. omega n m k) = (if m = 0 then of_nat n else 0)"
proof (cases "m = 0")
  case True
  then show ?thesis by simp
next
  case False
  then have m: "0 < m" by simp
  have n: "0 < n" using assms by simp
  have "(\<Sum>k<n. omega n m k) = (\<Sum>k<n. omega n m 1 ^ k)"
    by (intro sum.cong refl omega_power)
  also have "\<dots> = (omega n m 1 ^ n - 1) / (omega n m 1 - 1)"
    by (rule geometric_sum) (rule omega_ne_1 [OF m assms])
  also have "\<dots> = 0"
    by (simp only: omega_period [OF n]) simp
  finally show ?thesis using False by simp
qed

subsection \<open>Shifts, the discrete Fourier transform and the trapezoidal rule\<close>

lemma fft_nonempty:
  "xs \<noteq> [] \<Longrightarrow> fft xs = Inr (map (\<lambda>k. \<Sum>m<length xs. xs ! m * omega (length xs) m k) [0..<length xs])"
  by (simp add: fft_def omega_def)

lemma sum_list_nth: "sum_list xs = (\<Sum>j<length xs. xs ! j)" for xs :: "'a::comm_monoid_add list"
  by (simp add: sum_list_sum_nth atLeast0LessThan)

lemma sum_list_rotate: "sum_list (rotate k xs) = sum_list xs" for xs :: "'a::comm_monoid_add list"
proof -
  define j where "j = k mod length xs"
  have "sum_list (rotate k xs) = sum_list (drop j xs) + sum_list (take j xs)"
    by (simp add: rotate_drop_take j_def)
  also have "\<dots> = sum_list (take j xs) + sum_list (drop j xs)"
    by (rule add.commute)
  also have "\<dots> = sum_list (take j xs @ drop j xs)"
    by (simp only: sum_list_append)
  also have "\<dots> = sum_list xs"
    by simp
  finally show ?thesis .
qed

lemma sum_nth_rotate:
  "(\<Sum>j<length xs. rotate k xs ! j) = (\<Sum>j<length xs. xs ! j)" for xs :: "'a::comm_monoid_add list"
  using sum_list_rotate [of k xs] by (simp add: sum_list_nth)

lemma trapz_ends:
  fixes ys :: "'a::field_char_0 list"
  assumes "ys \<noteq> []"
  shows "trapz ys = (\<Sum>j<length ys. ys ! j) - (ys ! 0 + ys ! (length ys - 1)) / 2"
proof -
  from assms obtain p where p: "length ys = Suc p"
    by (cases ys) auto
  define T where "T = (\<Sum>j<Suc p. ys ! j)"
  have a: "(\<Sum>j<p. ys ! Suc j) = T - ys ! 0"
    unfolding T_def sum.lessThan_Suc_shift by simp
  have b: "(\<Sum>j<p. ys ! j) = T - ys ! p"
    unfolding T_def by simp
  have "trapz ys = (\<Sum>j<p. (ys ! Suc j + ys ! j) / 2)"
    by (simp add: trapz_def p)
  also have "\<dots> = (\<Sum>j<p. ys ! Suc j + ys ! j) / 2"
    by (simp only: sum_divide_distrib)
  also have "\<dots> = ((\<Sum>j<p. ys ! Suc j) + (\<Sum>j<p. ys ! j)) / 2"
    by (simp only: sum.distrib)
  also have "\<dots> = T - (ys ! 0 + ys ! p) / 2"
    unfolding a b by (simp add: field_simps)
  finally show ?thesis
    by (simp add: p T_def)
qed

lemma nth_ifftshift:
  "i < length xs \<Longrightarrow> ifftshift xs ! i = xs ! ((length xs div 2 + i) mod length xs)"
  by (simp add: ifftshift_def nth_rotate)

lemma length_ifftshift [simp]: "length (ifftshift xs) = length xs"
  by (simp add: ifftshift_def)

lemma length_fftshift [simp]: "length (fftshift xs) = length xs"
  by (simp add: fftshift_def)

lemma nth_fftshift:
  "i < length xs \<Longrightarrow> fftshift xs ! i = xs ! ((length xs - length xs div 2 + i) mod length xs)"
  by (simp add: fftshift_def nth_rotate)

lemma fftshift_mid:
  assumes "xs \<noteq> []"
  shows "fftshift xs ! (length xs div 2) = xs ! 0"
proof -
  have "length xs div 2 < length xs"
    using assms by (cases xs) simp_all
  then show ?thesis
    by (simp add: nth_fftshift)
qed

lemma ifftshift_0:
  assumes "xs \<noteq> []"
  shows "ifftshift xs ! 0 = xs ! (length xs div 2)"
proof -
  have "length xs div 2 < length xs"
    using assms by (cases xs) simp_all
  then show ?thesis
    using assms by (simp add: nth_ifftshift)
qed

text \<open>The entries of a transform sum to \<open>n\<close> times the first input.\<close>

lemma dft_total:
  assumes "0 < n"
  shows "(\<Sum>k<n. \<Sum>m<n. f m * omega n m k) = of_nat n * f 0"
proof -
  have "(\<Sum>k<n. \<Sum>m<n. f m * omega n m k) = (\<Sum>m<n. \<Sum>k<n. f m * omega n m k)"
    by (rule sum.swap)
  also have "\<dots> = (\<Sum>m<n. f m * (\<Sum>k<n. omega n m k))"
    by (simp add: sum_distrib_left)
  also have "\<dots> = (\<Sum>m<n. if m = 0 then of_nat n * f 0 else 0)"
    by (intro sum.cong refl) (simp add: omega_sum)
  also have "\<dots> = of_nat n * f 0"
    using assms by simp
  finally show ?thesis .
qed

subsection \<open>Interpolation at a grid point\<close>

lemma interp_sorted_at_node:
  "sorted_wrt (<) (map fst ps) \<Longrightarrow> i < length ps \<Longrightarrow> 2 \<le> length ps
     \<Longrightarrow> interp_sorted ps (fst (ps ! i)) = Inr (snd (ps ! i))"
proof (induction ps arbitrary: i)
  case Nil
  then show ?case by simp
next
  case (Cons p ps)
  obtain x0 y0 where p: "p = (x0, y0)" by (cases p)
  from Cons.prems(3) obtain q qs where ps: "ps = q # qs"
    by (cases ps) auto
  obtain x1 y1 where q: "q = (x1, y1)" by (cases q)
  from Cons.prems(1) have lt: "x0 < x1" and rest: "sorted_wrt (<) (map fst ps)"
    and all: "\<forall>v \<in> set (map fst ps). x0 < v"
    by (auto simp: p ps q)
  show ?case
  proof (cases i)
    case 0
    then show ?thesis using lt by (simp add: p ps q)
  next
    case (Suc j)
    note i = Suc
    show ?thesis
    proof (cases j)
      case 0
      then show ?thesis using lt i by (simp add: p ps q)
    next
      case (Suc l)
      from Cons.prems(2) i have j: "j < length ps" by simp
      with Suc have len: "2 \<le> length ps" by simp
      from rest have above: "\<forall>v \<in> set qs. x1 < fst v"
        by (simp add: ps q)
      have "qs ! l \<in> set qs"
        using j Suc by (simp add: ps)
      with above have "x1 < fst (ps ! j)"
        by (simp add: ps Suc)
      then have out: "\<not> (x0 \<le> fst (ps ! j) \<and> fst (ps ! j) \<le> x1)"
        by simp
      have "interp_sorted (p # ps) (fst ((p # ps) ! i))
              = interp_sorted ((x0, y0) # (x1, y1) # qs) (fst (ps ! j))"
        by (simp add: p ps q i)
      also have "\<dots> = interp_sorted ((x1, y1) # qs) (fst (ps ! j))"
        using out by (simp only: interp_sorted.simps if_False)
      also have "\<dots> = interp_sorted ps (fst (ps ! j))"
        by (simp add: ps q)
      also have "\<dots> = Inr (snd (ps ! j))"
        by (rule Cons.IH [OF rest j len])
      finally show ?thesis by (simp add: i)
    qed
  qed
qed

lemma interp1d_at_node:
  assumes "sorted_wrt (<) xs" and "length xs = length ys" and "2 \<le> length xs" and "i < length xs"
  shows "interp1d xs ys (xs ! i) = Inr (ys ! i)"
proof -
  have d: "distinct xs" and s: "sorted xs"
    using assms(1) by (simp_all add: strict_sorted_iff)
  have m: "map fst (zip xs ys) = xs"
    using assms(2) by simp
  have srt: "sort_key fst (zip xs ys) = zip xs ys"
    by (rule sort_key_id_if_sorted) (simp add: m s)
  have "interp_sorted (zip xs ys) (fst (zip xs ys ! i)) = Inr (snd (zip xs ys ! i))"
    by (rule interp_sorted_at_node) (use assms in \<open>simp_all add: m\<close>)
  then show ?thesis
    using assms by (simp add: interp1d_def d srt)
qed

subsection \<open>Prices read off at the spot\<close>

lemma np_mul_same: "length xs = length ys \<Longrightarrow> np_mul xs ys = Inr (map2 (*) xs ys)"
  by (simp add: np_mul_def)

lemma plancherel_curve_mid:
  assumes "H \<noteq> []" and "xwidth \<noteq> 0"
  shows "\<exists>c. plancherel_curve r T xwidth H = Inr c \<and> length c = length H
           \<and> c ! (length H div 2) = exp (- r * T) * Re (\<Sum>j<length H. H ! j) / xwidth"
proof -
  define n where "n = length H"
  define A where "A = map (\<lambda>k. \<Sum>m<n. ifftshift H ! m * omega n m k) [0..<n]"
  have ne: "ifftshift H \<noteq> []"
    using assms(1) by (metis length_ifftshift length_0_conv)
  have fft: "fft (ifftshift H) = Inr A"
    using fft_nonempty [OF ne] by (simp add: A_def n_def)
  have lenA: "length A = n"
    by (simp add: A_def)
  have n: "0 < n" and mid: "n div 2 < n"
    using assms(1) by (simp_all add: n_def)
  have A0: "A ! 0 = (\<Sum>j<n. H ! j)"
    using n sum_nth_rotate [of "n div 2" H]
    by (simp add: A_def ifftshift_def n_def)
  have "fftshift A ! (n div 2) = A ! 0"
    using fftshift_mid [of A] n lenA by auto
  then have "map (\<lambda>z. exp (- r * T) * Re z / xwidth) (fftshift A) ! (n div 2)
               = exp (- r * T) * Re (\<Sum>j<n. H ! j) / xwidth"
    using mid lenA by (simp add: A0)
  then show ?thesis
    using assms(2) lenA by (simp add: plancherel_curve_def fft n_def)
qed

lemma curve_at_spot:
  assumes "length S = length H" and "2 \<le> length H"
    and "xwidth \<noteq> 0" and "sorted_wrt (<) S" and "S ! (length S div 2) = S0"
  shows "(case plancherel_curve r T xwidth H of Inl e \<Rightarrow> Inl e | Inr c \<Rightarrow> interp1d S c S0)
           = Inr (exp (- r * T) * Re (\<Sum>j<length H. H ! j) / xwidth)"
proof -
  have ne: "H \<noteq> []"
    using assms(2) by auto
  from plancherel_curve_mid [OF ne assms(3), of r T]
  obtain c where c: "plancherel_curve r T xwidth H = Inr c" "length c = length H"
    "c ! (length H div 2) = exp (- r * T) * Re (\<Sum>j<length H. H ! j) / xwidth"
    by blast
  have mid: "length S div 2 < length S"
    using assms(1,2) by simp
  have "interp1d S c (S ! (length S div 2)) = Inr (c ! (length S div 2))"
    by (rule interp1d_at_node) (use assms c mid in simp_all)
  then show ?thesis
    using c assms(1,5) by simp
qed

lemma sum_map2_cnj_right:
  "length G = length psi \<Longrightarrow>
     (\<Sum>j<length G. map2 (*) G (map cnj psi) ! j) = (\<Sum>j<length G. G ! j * cnj (psi ! j))"
  by (intro sum.cong refl) simp

lemma sum_map2_cnj_left:
  "length G = length psi \<Longrightarrow>
     (\<Sum>j<length G. map2 (*) (map cnj G) psi ! j) = (\<Sum>j<length G. cnj (G ! j) * psi ! j)"
  by (intro sum.cong refl) simp

lemma price_conj_psi_at_spot:
  assumes "length G = length psi" and "length S = length G" and "2 \<le> length G"
    and "xwidth \<noteq> 0" and "sorted_wrt (<) S" and "S ! (length S div 2) = S0"
  shows "price_conj_psi r T xwidth S S0 G psi
           = Inr (exp (- r * T) * Re (\<Sum>j<length G. G ! j * cnj (psi ! j)) / xwidth)"
proof -
  have len: "length (map2 (*) G (map cnj psi)) = length G"
    by (simp add: assms(1))
  show ?thesis
    unfolding price_conj_psi_def
    using curve_at_spot [of S "map2 (*) G (map cnj psi)" xwidth S0 r T] assms
      sum_map2_cnj_right [OF assms(1)]
    by (simp add: np_mul_same len)
qed

lemma price_conj_G_at_spot:
  assumes "length G = length psi" and "length S = length G" and "2 \<le> length G"
    and "xwidth \<noteq> 0" and "sorted_wrt (<) S" and "S ! (length S div 2) = S0"
  shows "price_conj_G r T xwidth S S0 G psi
           = Inr (exp (- r * T) * Re (\<Sum>j<length G. cnj (G ! j) * psi ! j) / xwidth)"
proof -
  have len: "length (map2 (*) (map cnj G) psi) = length G"
    by (simp add: assms(1))
  show ?thesis
    unfolding price_conj_G_def
    using curve_at_spot [of S "map2 (*) (map cnj G) psi" xwidth S0 r T] assms
      sum_map2_cnj_left [OF assms(1)]
    by (simp add: np_mul_same len)
qed

lemma price_trapz_value:
  assumes "length G = length psi" and "G \<noteq> []" and "xwidth \<noteq> 0"
  shows "price_trapz r T xwidth G psi
           = Inr (exp (- r * T)
                  * Re ((\<Sum>j<length G. cnj (G ! j) * psi ! j)
                        - (cnj (G ! 0) * psi ! 0
                           + cnj (G ! (length G - 1)) * psi ! (length G - 1)) / 2)
                  / xwidth)"
proof -
  define H where "H = map2 (*) (map cnj G) psi"
  have len: "length H = length G"
    by (simp add: H_def assms(1))
  have ne: "H \<noteq> []"
    using assms(2) len by auto
  have last: "length G - 1 < length G"
    using assms(2) by (cases G) simp_all
  have "psi \<noteq> []"
    using assms(1,2) by auto
  then have pos: "0 < length G" "0 < length psi" "length G - 1 < length psi"
    using assms(1,2) last by simp_all
  have ends: "H ! 0 = cnj (G ! 0) * psi ! 0"
    "H ! (length G - 1) = cnj (G ! (length G - 1)) * psi ! (length G - 1)"
    unfolding H_def using pos last by simp_all
  have s: "(\<Sum>j<length G. H ! j) = (\<Sum>j<length G. cnj (G ! j) * psi ! j)"
    unfolding H_def by (rule sum_map2_cnj_left [OF assms(1)])
  have "trapz H = (\<Sum>j<length G. H ! j) - (H ! 0 + H ! (length G - 1)) / 2"
    using trapz_ends [OF ne] by (simp only: len)
  also have "\<dots> = (\<Sum>j<length G. cnj (G ! j) * psi ! j)
                    - (cnj (G ! 0) * psi ! 0
                       + cnj (G ! (length G - 1)) * psi ! (length G - 1)) / 2"
    by (simp only: s ends)
  finally have "trapz (map2 (*) (map cnj G) psi) = (\<Sum>j<length G. cnj (G ! j) * psi ! j)
                    - (cnj (G ! 0) * psi ! 0
                       + cnj (G ! (length G - 1)) * psi ! (length G - 1)) / 2"
    by (simp only: H_def)
  moreover have "np_mul (map cnj G) psi = Inr (map2 (*) (map cnj G) psi)"
    by (rule np_mul_same) (simp add: assms(1))
  ultimately show ?thesis
    using assms(3) by (simp add: price_trapz_def)
qed

lemma Re_sum_cnj_swap:
  "Re (\<Sum>j<n. cnj (G ! j) * psi ! j) = Re (\<Sum>j<n. G ! j * cnj (psi ! j))"
proof -
  have "(\<Sum>j<n. cnj (G ! j) * psi ! j) = cnj (\<Sum>j<n. G ! j * cnj (psi ! j))"
    by simp
  then show ?thesis by simp
qed

text \<open>The price grid of the driver, \<open>S = S0 * exp(x)\<close> on a built grid, is increasing and has the spot at index \<open>n/2\<close>.\<close>

lemma driver_price_grid:
  assumes "0 < n" and "even n" and "0 < xwidth" and "0 < S0" and "build_grid xwidth n = Inr gr"
  shows "sorted_wrt (<) (map (\<lambda>v. S0 * exp v) (x_grid gr))
         \<and> length (map (\<lambda>v. S0 * exp v) (x_grid gr)) = nat n
         \<and> map (\<lambda>v. S0 * exp v) (x_grid gr) ! (nat n div 2) = S0"
proof -
  from \<open>even n\<close> obtain m where n: "n = 2 * m" ..
  with \<open>0 < n\<close> have m: "0 < m" by simp
  define d where "d = xwidth / real_of_int (2 * m)"
  have d: "0 < d"
    using m assms(3) by (simp add: d_def)
  have x: "x_grid gr = map (\<lambda>v. d * v) (centred_range (2 * m))"
    using assms(5) build_grid_even [OF m, of xwidth] assms(3) unfolding n d_def by auto
  have len: "length (x_grid gr) = nat (2 * m)"
    by (simp add: x length_centred_range)
  have nth: "x_grid gr ! j = d * real_of_int (int j - m)" if "j < nat (2 * m)" for j
    using that by (simp add: x centred_range_def)
  have "sorted_wrt (<) (map (\<lambda>v. S0 * exp v) (x_grid gr))"
    unfolding sorted_wrt_iff_nth_less
  proof (intro allI impI)
    fix i j
    assume ij: "i < j" and "j < length (map (\<lambda>v. S0 * exp v) (x_grid gr))"
    then have j: "j < nat (2 * m)" and i: "i < nat (2 * m)"
      using len by simp_all
    have "d * real_of_int (int i - m) < d * real_of_int (int j - m)"
      using d ij by simp
    then show "map (\<lambda>v. S0 * exp v) (x_grid gr) ! i < map (\<lambda>v. S0 * exp v) (x_grid gr) ! j"
      using i j len assms(4) by (simp add: nth)
  qed
  moreover have "map (\<lambda>v. S0 * exp v) (x_grid gr) ! (nat n div 2) = S0"
  proof -
    have h: "nat n div 2 = nat m"
      using m by (simp add: n nat_mult_distrib)
    have "nat m < nat (2 * m)"
      using m by simp
    then show ?thesis
      using m by (simp add: h len nth)
  qed
  ultimately show ?thesis
    by (simp add: len n)
qed

subsection \<open>The recovered density\<close>

lemma fft_dft: "xs \<noteq> [] \<Longrightarrow> fft xs = Inr (dft xs)"
  by (simp add: fft_nonempty dft_def)

lemma length_dft [simp]: "length (dft xs) = length xs"
  by (simp add: dft_def)

lemma nth_dft: "k < length xs \<Longrightarrow> dft xs ! k = (\<Sum>m<length xs. xs ! m * omega (length xs) m k)"
  by (simp add: dft_def)

lemma sum_dft: "xs \<noteq> [] \<Longrightarrow> (\<Sum>k<length xs. dft xs ! k) = of_nat (length xs) * xs ! 0"
proof -
  assume "xs \<noteq> []"
  then have n: "0 < length xs" by simp
  have "(\<Sum>k<length xs. dft xs ! k) = (\<Sum>k<length xs. \<Sum>m<length xs. xs ! m * omega (length xs) m k)"
    by (intro sum.cong refl) (simp add: nth_dft)
  also have "\<dots> = of_nat (length xs) * xs ! 0"
    by (rule dft_total [OF n])
  finally show ?thesis .
qed

lemma recover_density_eq:
  assumes "psi \<noteq> []" and "xwidth \<noteq> 0"
  shows "recover_density xwidth psi
           = Inr (map (\<lambda>z. Re z / xwidth) (fftshift (dft (ifftshift psi))))"
proof -
  have "ifftshift psi \<noteq> []"
    using assms(1) by (metis length_ifftshift length_0_conv)
  then show ?thesis
    using assms(2) by (simp add: recover_density_def fft_dft)
qed

lemma density_total:
  assumes "psi \<noteq> []"
  shows "(\<Sum>j<length psi. map (\<lambda>z. Re z / xwidth) (fftshift (dft (ifftshift psi))) ! j)
           = real (length psi) * Re (psi ! (length psi div 2)) / xwidth"
proof -
  define A where "A = dft (ifftshift psi)"
  have lenA: "length A = length psi"
    by (simp add: A_def)
  have ne: "ifftshift psi \<noteq> []"
    using assms(1) by (metis length_ifftshift length_0_conv)
  have "(\<Sum>j<length psi. map (\<lambda>z. Re z / xwidth) (fftshift A) ! j)
          = (\<Sum>j<length psi. Re (fftshift A ! j) / xwidth)"
    by (intro sum.cong refl) (simp add: lenA)
  also have "\<dots> = Re (\<Sum>j<length A. fftshift A ! j) / xwidth"
    by (simp add: sum_divide_distrib lenA)
  also have "(\<Sum>j<length A. fftshift A ! j) = (\<Sum>j<length A. A ! j)"
    unfolding fftshift_def by (rule sum_nth_rotate)
  also have "\<dots> = of_nat (length psi) * ifftshift psi ! 0"
    using sum_dft [OF ne] by (simp add: A_def)
  also have "ifftshift psi ! 0 = psi ! (length psi div 2)"
    by (rule ifftshift_0 [OF assms])
  finally show ?thesis
    by (simp add: A_def)
qed

lemma omega_mod: "0 < n \<Longrightarrow> omega n (a mod n) m = omega n a m"
proof -
  assume n: "0 < n"
  define w where "w = omega n m 1"
  have "omega n a m = w ^ a"
    unfolding w_def by (subst omega_commute) (rule omega_power)
  also have "\<dots> = w ^ (n * (a div n) + a mod n)"
    by (simp only: mult_div_mod_eq)
  also have "\<dots> = w ^ (n * (a div n)) * w ^ (a mod n)"
    by (rule power_add)
  also have "\<dots> = (w ^ n) ^ (a div n) * w ^ (a mod n)"
    by (simp only: power_mult)
  also have "\<dots> = w ^ (a mod n)"
    unfolding w_def by (simp only: omega_period [OF n]) simp
  also have "\<dots> = omega n (a mod n) m"
    unfolding w_def by (subst (2) omega_commute) (rule omega_power [symmetric])
  finally show ?thesis by simp
qed

lemma omega_add: "omega n m (j + k) = omega n m j * omega n m k"
  by (simp add: omega_def exp_add [symmetric] algebra_simps add_divide_distrib)

lemma omega_half: "0 < N \<Longrightarrow> omega (2 * N) m N = (- 1) ^ m"
proof -
  assume N: "0 < N"
  have "omega (2 * N) N 1 = cis (- pi)"
    using N by (simp add: omega_cis)
  also have "\<dots> = - 1"
    by (simp add: complex_eq_iff)
  finally have "omega (2 * N) N 1 = - 1" .
  then show ?thesis
    by (subst omega_commute) (simp add: omega_power [of _ N m])
qed

lemma ifftshift_psi_edge:
  assumes "m < 2 * N"
  shows "ifftshift (psi_edge N) ! m = (- 1) ^ m"
proof -
  have len: "length (psi_edge N) = 2 * N"
    by (simp add: psi_edge_def)
  have lt: "(N + m) mod (2 * N) < 2 * N"
    using assms by simp
  have "ifftshift (psi_edge N) ! m = psi_edge N ! ((N + m) mod (2 * N))"
    using assms by (simp add: nth_ifftshift len)
  also have "\<dots> = (- 1) ^ ((N + m) mod (2 * N) + N)"
    using lt by (simp add: psi_edge_def)
  also have "\<dots> = (- 1) ^ m"
  proof (cases "m < N")
    case True
    then have "(N + m) mod (2 * N) + N = 2 * N + m" by simp
    then show ?thesis by (simp add: power_add)
  next
    case False
    then have "(N + m) mod (2 * N) = m - N"
      using assms by (simp add: mod_if)
    with False show ?thesis by simp
  qed
  finally show ?thesis .
qed

lemma dft_psi_edge:
  assumes "0 < N" and "k < 2 * N"
  shows "dft (ifftshift (psi_edge N)) ! k = (if k = N then of_nat (2 * N) else 0)"
proof -
  define n where "n = 2 * N"
  have len: "length (ifftshift (psi_edge N)) = n"
    by (simp add: psi_edge_def n_def)
  have n: "0 < n"
    using assms(1) by (simp add: n_def)
  have "k < length (ifftshift (psi_edge N))"
    using assms(2) by (simp add: psi_edge_def)
  then have "dft (ifftshift (psi_edge N)) ! k
               = (\<Sum>m<length (ifftshift (psi_edge N)).
                    ifftshift (psi_edge N) ! m * omega (length (ifftshift (psi_edge N))) m k)"
    by (rule nth_dft)
  then have "dft (ifftshift (psi_edge N)) ! k = (\<Sum>m<n. ifftshift (psi_edge N) ! m * omega n m k)"
    by (simp only: len)
  also have "\<dots> = (\<Sum>m<n. omega n ((N + k) mod n) m)"
  proof (intro sum.cong refl)
    fix m assume "m \<in> {..<n}"
    then have m: "m < 2 * N" by (simp add: n_def)
    have "ifftshift (psi_edge N) ! m * omega n m k = omega n m N * omega n m k"
      using omega_half [OF assms(1), of m] by (simp add: ifftshift_psi_edge [OF m] n_def)
    also have "\<dots> = omega n m (N + k)"
      by (simp add: omega_add)
    also have "\<dots> = omega n (N + k) m"
      by (rule omega_commute)
    also have "\<dots> = omega n ((N + k) mod n) m"
      by (rule omega_mod [OF n, symmetric])
    finally show "ifftshift (psi_edge N) ! m * omega n m k = omega n ((N + k) mod n) m" .
  qed
  also have "\<dots> = (if (N + k) mod n = 0 then of_nat n else 0)"
    by (rule omega_sum) (use n in simp)
  also have "(N + k) mod n = 0 \<longleftrightarrow> k = N"
  proof
    assume z: "(N + k) mod n = 0"
    show "k = N"
    proof (cases "N + k < n")
      case True
      with z assms(1) show ?thesis by simp
    next
      case False
      then have "(N + k) mod n = N + k - n"
        using assms(2) by (simp add: mod_if n_def)
      with z False show ?thesis by (simp add: n_def)
    qed
  next
    assume "k = N"
    then have "N + k = n" by (simp add: n_def)
    then show "(N + k) mod n = 0" by simp
  qed
  finally show ?thesis by (simp add: n_def)
qed

lemma edge_density:
  assumes "0 < N" and "xwidth \<noteq> 0"
  shows "\<exists>f. recover_density xwidth (psi_edge N) = Inr f
           \<and> f ! 0 = real (2 * N) / xwidth \<and> f ! (2 * N - 1) = 0"
proof -
  define A where "A = dft (ifftshift (psi_edge N))"
  have len: "length (psi_edge N) = 2 * N" and lenA: "length A = 2 * N"
    by (simp_all add: psi_edge_def A_def)
  have ne: "psi_edge N \<noteq> []"
    using assms(1) len by auto
  have i0: "(2 * N - (2 * N) div 2 + 0) mod (2 * N) = N"
    using assms(1) by simp
  have i1: "(2 * N - (2 * N) div 2 + (2 * N - 1)) mod (2 * N) = N - 1"
  proof -
    have "2 * N - (2 * N) div 2 + (2 * N - 1) = (N - 1) + 2 * N"
      using assms(1) by simp
    then have "(2 * N - (2 * N) div 2 + (2 * N - 1)) mod (2 * N) = (N - 1) mod (2 * N)"
      by (simp only: mod_add_self2)
    also have "\<dots> = N - 1"
      using assms(1) by simp
    finally show ?thesis .
  qed
  have f0: "fftshift A ! 0 = of_nat (2 * N)"
    using assms(1) dft_psi_edge [OF assms(1), of N]
    by (simp add: nth_fftshift lenA A_def [symmetric])
  have f1: "fftshift A ! (2 * N - 1) = 0"
    using assms(1) dft_psi_edge [OF assms(1), of "N - 1"] i1
    by (simp add: nth_fftshift lenA A_def [symmetric])
  show ?thesis
    using recover_density_eq [OF ne assms(2)] f0 f1 assms(1) lenA
    by (simp add: A_def [symmetric])
qed

lemma density_mass_formula:
  assumes "psi \<noteq> []" and "xwidth \<noteq> 0" and "psi ! (length psi div 2) = 1"
  shows "\<exists>f. recover_density xwidth psi = Inr f \<and> length f = length psi
           \<and> (\<Sum>j<length psi. f ! j * (xwidth / real (length psi))) = 1
           \<and> density_mass (xwidth / real (length psi)) f
               = 1 - (xwidth / real (length psi)) * (f ! 0 + f ! (length psi - 1)) / 2"
proof -
  define n where "n = length psi"
  define f where "f = map (\<lambda>z. Re z / xwidth) (fftshift (dft (ifftshift psi)))"
  define h where "h = xwidth / real n"
  have n: "0 < n"
    using assms(1) by (simp add: n_def)
  have len: "length f = n"
    by (simp add: f_def n_def)
  have tot: "(\<Sum>j<n. f ! j) = real n / xwidth"
    using density_total [OF assms(1), of xwidth] assms(3) by (simp add: f_def n_def)
  have rect: "(\<Sum>j<n. f ! j * h) = 1"
  proof -
    have "(\<Sum>j<n. f ! j * h) = (\<Sum>j<n. f ! j) * h"
      by (simp add: sum_distrib_right)
    also have "\<dots> = 1"
      using n assms(2) by (simp add: tot h_def)
    finally show ?thesis .
  qed
  have fh: "map (\<lambda>v. v * h) f \<noteq> []" and lenh: "length (map (\<lambda>v. v * h) f) = n"
    using n len by auto
  have last: "n - 1 < n"
    using n by simp
  have "density_mass h f
          = (\<Sum>j<n. map (\<lambda>v. v * h) f ! j)
            - (map (\<lambda>v. v * h) f ! 0 + map (\<lambda>v. v * h) f ! (n - 1)) / 2"
    unfolding density_mass_def using trapz_ends [OF fh] by (simp only: lenh)
  also have "(\<Sum>j<n. map (\<lambda>v. v * h) f ! j) = (\<Sum>j<n. f ! j * h)"
    by (intro sum.cong refl) (simp add: len)
  also have "map (\<lambda>v. v * h) f ! 0 = f ! 0 * h"
    using n len by simp
  also have "map (\<lambda>v. v * h) f ! (n - 1) = f ! (n - 1) * h"
    using last len by simp
  finally have "density_mass h f = (\<Sum>j<n. f ! j * h) - (f ! 0 * h + f ! (n - 1) * h) / 2" .
  then have "density_mass h f = 1 - h * (f ! 0 + f ! (n - 1)) / 2"
    unfolding rect by (simp add: algebra_simps)
  then show ?thesis
    using recover_density_eq [OF assms(1,2)] rect len
    unfolding f_def [symmetric] h_def n_def by blast
qed

lemma edge_mass_half:
  assumes "0 < N" and "xwidth \<noteq> 0"
  shows "psi_edge N ! N = 1
         \<and> map_sum id (density_mass (xwidth / real (2 * N))) (recover_density xwidth (psi_edge N))
             = Inr (1/2)"
proof -
  have len: "length (psi_edge N) = 2 * N"
    by (simp add: psi_edge_def)
  have ne: "psi_edge N \<noteq> []"
    using assms(1) len by auto
  have mid: "psi_edge N ! (length (psi_edge N) div 2) = 1"
    using assms(1) by (simp add: psi_edge_def mult_2 [symmetric])
  from edge_density [OF assms] obtain f where f: "recover_density xwidth (psi_edge N) = Inr f"
    "f ! 0 = real (2 * N) / xwidth" "f ! (2 * N - 1) = 0"
    by blast
  have "density_mass (xwidth / real (2 * N)) f
          = 1 - (xwidth / real (2 * N)) * (f ! 0 + f ! (2 * N - 1)) / 2"
    using density_mass_formula [OF ne assms(2) mid] by (simp add: f len)
  also have "\<dots> = 1/2"
    using assms f(2,3) by simp
  finally show ?thesis
    using mid assms(1) by (simp add: f len)
qed

lemma cis_int_pi: "cis (pi * real_of_int k) = (if even k then 1 else - 1)"
  by (simp add: complex_eq_iff)

lemma psi_density_edge:
  assumes "0 < m" and "xwidth \<noteq> 0" and "mu * T = - (xwidth / 2)"
  shows "psi_density mu 0 0 mu_j sigma_j T (map (\<lambda>v. 2 * pi / xwidth * v) (centred_range (2 * m)))
           = psi_edge (nat m)"
proof (rule nth_equalityI)
  show "length (psi_density mu 0 0 mu_j sigma_j T (map (\<lambda>v. 2 * pi / xwidth * v) (centred_range (2 * m))))
          = length (psi_edge (nat m))"
    using assms(1) by (simp add: psi_density_def psi_edge_def length_centred_range nat_mult_distrib)
next
  fix j
  assume "j < length (psi_density mu 0 0 mu_j sigma_j T (map (\<lambda>v. 2 * pi / xwidth * v) (centred_range (2 * m))))"
  then have j: "j < nat (2 * m)"
    by (simp add: psi_density_def length_centred_range)
  then have j': "j < 2 * nat m"
    using assms(1) by (simp add: nat_mult_distrib)
  define k where "k = int j - m"
  have "char_fn mu 0 0 mu_j sigma_j T (of_real (2 * pi / xwidth * real_of_int k))
          = exp (\<i> * of_real (mu * T * (2 * pi / xwidth * real_of_int k)))"
    by (simp add: char_fn_def psi_exponent_def algebra_simps)
  also have "mu * T * (2 * pi / xwidth * real_of_int k) = pi * real_of_int (- k)"
    unfolding assms(3) using assms(2) by (simp add: field_simps)
  also have "exp (\<i> * of_real (pi * real_of_int (- k))) = cis (pi * real_of_int (- k))"
    by (simp add: cis_conv_exp)
  also have "\<dots> = (if even k then 1 else - 1)"
    unfolding cis_int_pi by simp
  also have "\<dots> = (- 1) ^ (j + nat m)"
  proof -
    have "even k \<longleftrightarrow> even (j + nat m)"
      using assms(1) unfolding k_def by (simp add: even_nat_iff) 
    then show ?thesis by simp
  qed
  finally show "psi_density mu 0 0 mu_j sigma_j T (map (\<lambda>v. 2 * pi / xwidth * v) (centred_range (2 * m))) ! j
                  = psi_edge (nat m) ! j"
    using j j' by (simp add: psi_density_def psi_edge_def centred_range_def k_def)
qed

lemma psi_edge_2: "psi_edge 2 = [1, - 1, 1, - 1]"
  by (simp add: psi_edge_def upt_conv_Cons numeral_eq_Suc)

lemma dft_edge_2: "dft (ifftshift (psi_edge 2)) = [0, 0, 4, 0]"
proof (rule nth_equalityI)
  show "length (dft (ifftshift (psi_edge 2))) = length [0, 0, 4, 0 :: complex]"
    by (simp add: psi_edge_def)
next
  fix k assume "k < length (dft (ifftshift (psi_edge 2)))"
  then have k: "k < 2 * 2" by (simp add: psi_edge_def)
  then have "k = 0 \<or> k = 1 \<or> k = 2 \<or> k = 3" by arith
  then show "dft (ifftshift (psi_edge 2)) ! k = [0, 0, 4, 0] ! k"
    using dft_psi_edge [of 2 k] k by auto
qed

lemma recover_edge_2: "recover_density 4 [1, - 1, 1, - 1] = Inr [1, 0, 0, 0]"
proof -
  have "fftshift [0, 0, 4, 0 :: complex] = [4, 0, 0, 0]"
    by (simp add: fftshift_def rotate_drop_take)
  then show ?thesis
    using recover_density_eq [of "psi_edge 2" 4]
    by (simp add: dft_edge_2) (simp add: psi_edge_2)
qed

subsection \<open>Characteristic functions at frequency 0\<close>

lemma clog_1: "clog 1 = 0"
proof -
  have "Arg 1 = 0"
    by (rule cis_Arg_unique) simp_all
  then show ?thesis
    by (simp add: clog_def complex_eq_iff)
qed

lemma heston_d_0:
  "csqrt ((of_real (rho * sigma * 0) * \<i> - of_real b)\<^sup>2
            - of_real (sigma\<^sup>2) * (of_real (2 * u * 0) * \<i> - of_real (0\<^sup>2)))
     = of_real \<bar>b\<bar>"
proof -
  have "(of_real (rho * sigma * 0) * \<i> - complex_of_real b)\<^sup>2
            - of_real (sigma\<^sup>2) * (of_real (2 * u * 0) * \<i> - of_real (0\<^sup>2)) = of_real (b\<^sup>2)"
    by simp
  moreover have "csqrt (of_real (b\<^sup>2)) = of_real \<bar>b\<bar>"
    by (simp add: csqrt_of_real_nonneg)
  ultimately show ?thesis by simp
qed

lemma f_Heston_0_neg:
  assumes "sigma \<noteq> 0" and "0 < S0" and "heston_b kappa lmbda rho sigma j < 0"
  shows "f_Heston 0 S0 v0 T r q kappa theta sigma rho lmbda j = Inr 1"
proof -
  define b where "b = heston_b kappa lmbda rho sigma j"
  have b: "b < 0" using assms(3) by (simp add: b_def)
  then have ab: "\<bar>b\<bar> = - b" by simp
  show ?thesis
    unfolding f_Heston_def b_def [symmetric] Let_def heston_d_0 ab
    using assms(1,2) b by (simp add: clog_1)
qed

lemma f_Heston_0_nonneg:
  assumes "0 \<le> heston_b kappa lmbda rho sigma j"
  shows "f_Heston 0 S0 v0 T r q kappa theta sigma rho lmbda j
           = Inl (if sigma = 0 then ZeroDivisionError else NotFinite)"
proof -
  define b where "b = heston_b kappa lmbda rho sigma j"
  have b: "0 \<le> b" using assms by (simp add: b_def)
  then have ab: "\<bar>b\<bar> = b" by simp
  show ?thesis
    unfolding f_Heston_def b_def [symmetric] Let_def heston_d_0 ab
    by simp
qed

lemma char_fn_0: "char_fn mu sigma lmbda mu_j sigma_j T 0 = 1"
  by (simp add: char_fn_def psi_exponent_def)

text \<open>The diffusion variant of the spec is the jump-diffusion function without jumps.\<close>

lemma char_fn_no_jumps:
  "char_fn mu sigma 0 mu_j sigma_j T z = exp (diffusion_exponent mu sigma T z)"
  by (simp add: char_fn_def psi_exponent_def diffusion_exponent_def algebra_simps
      power_mult_distrib)

section \<open>Claims about the grids\<close>

text \<open>
  C4, as stated, for every grid size: the grids have \<open>n\<close> points. For an odd \<open>n\<close> the
  driver's \<open>N = int(n/2)\<close> and \<open>2*N\<close> samples give \<open>n - 1\<close> points: with width 6 and
  \<open>n = 3\<close> the real-space grid is \<open>[-2, 0]\<close>, and with \<open>n = 1\<close> (a power of two) both grids
  are empty.
\<close>

theorem grid_odd_size_counterexample:
  "map_sum id (\<lambda>g. (x_grid g, length (x_grid g), length (xi_grid g))) (build_grid 6 3)
     = Inr ([- 2, 0], 2, 2)
   \<and> map_sum id (\<lambda>g. (x_grid g, length (x_grid g), length (xi_grid g))) (build_grid 6 1)
     = Inr ([], 0, 0)"
  by (simp add: build_grid_def int_half_def linspace_def Let_def upt_conv_Cons)

text \<open>
  C4, amended: for every grid size \<open>n > 0\<close> and every non-zero width, with half-width
  \<open>b = width/2\<close>, the grid is built and \<open>dx = (2b)/n\<close>, \<open>dxi = 2*pi/(2b)\<close>,
  \<open>dx * dxi = 2*pi/n\<close>, \<open>x = dx * (-N .. N-1)\<close> and \<open>xi = dxi * (-N .. N-1)\<close> with
  \<open>N = floor(n/2)\<close>, so that both grids have \<open>2 * floor(n/2)\<close> points; for an even \<open>n\<close> these
  are the \<open>n\<close> points \<open>-n/2 .. n/2-1\<close> times the step.
\<close>

theorem grid_construction:
  assumes "0 < n" and "xwidth \<noteq> 0"
  shows "\<exists>g. build_grid xwidth n = Inr g
           \<and> half_width g = xwidth / 2
           \<and> dx g = (2 * half_width g) / real_of_int n
           \<and> dxi g = 2 * pi / (2 * half_width g)
           \<and> dx g * dxi g = 2 * pi / real_of_int n
           \<and> x_grid g = map (\<lambda>v. dx g * v) (centred_range (2 * (n div 2)))
           \<and> xi_grid g = map (\<lambda>v. dxi g * v) (centred_range (2 * (n div 2)))
           \<and> length (x_grid g) = nat (2 * (n div 2))
           \<and> length (xi_grid g) = nat (2 * (n div 2))
           \<and> (even n \<longrightarrow> x_grid g = map (\<lambda>v. dx g * v) (centred_range n)
                         \<and> xi_grid g = map (\<lambda>v. dxi g * v) (centred_range n)
                         \<and> length (x_grid g) = nat n \<and> length (xi_grid g) = nat n)"
proof -
  have e: "2 * (n div 2) = n" if "even n"
    using that by simp
  show ?thesis
    using assms by (auto simp: build_grid_pos length_centred_range e)
qed

theorem grid_construction_witness:
  "(0::int) < 4 \<and> (6::real) \<noteq> 0 \<and> even (4::int)
     \<and> (\<exists>g. build_grid 6 4 = Inr g
           \<and> x_grid g = [- 3, - (3/2), 0, 3/2]
           \<and> dx g * dxi g = 2 * pi / 4
           \<and> length (x_grid g) = 4 \<and> length (xi_grid g) = 4)"
proof -
  have r: "centred_range 4 = [- 2, - 1, 0, 1]"
    by (simp add: centred_range_def upt_conv_Cons)
  show ?thesis
    using grid_construction [of 4 6] by (auto simp: r)
qed

text \<open>
  C9, as stated: a grid size that is not a power of two is refused. The driver has no
  such check: width 6 and \<open>n = 6\<close> give a grid of six points.
\<close>

theorem grid_not_power_of_two_counterexample:
  "\<not> power_of_two 6 \<and> map_sum id x_grid (build_grid 6 6) = Inr [- 3, - 2, - 1, 0, 1, 2]"
proof -
  have "\<not> power_of_two 6"
  proof
    assume "power_of_two 6"
    then obtain k :: nat where k: "(6::int) = 2 ^ k"
      by (auto simp: power_of_two_def)
    have "k < 3"
    proof (rule ccontr)
      assume "\<not> k < 3"
      then have "(2::int) ^ 3 \<le> 2 ^ k"
        by (intro power_increasing) simp_all
      with k show False by simp
    qed
    then have "k = 0 \<or> k = 1 \<or> k = 2" by arith
    with k show False by auto
  qed
  moreover have "centred_range 6 = [- 3, - 2, - 1, 0, 1, 2]"
    by (simp add: centred_range_def upt_conv_Cons)
  ultimately show ?thesis
    using build_grid_even [of 3 6] by simp
qed

text \<open>
  C9, amended: the grid construction checks nothing about powers of two and has no
  configuration error. It fails exactly when \<open>n = 0\<close> or the width is zero (a division by
  zero) or \<open>n \<le> -2\<close> (a negative sample count); for every other \<open>n\<close>, a power of two or
  not, it returns a grid.
\<close>

theorem grid_failure_cases:
  "(\<exists>e. build_grid xwidth ngrid = Inl e) \<longleftrightarrow> ngrid = 0 \<or> ngrid \<le> - 2 \<or> xwidth = 0"
  using build_grid_fails_iff [of xwidth ngrid] by (cases "build_grid xwidth ngrid") simp_all


section \<open>Claims about the characteristic function\<close>

text \<open>
  C3: for every complex argument \<open>z\<close> and parameters \<open>(r, q, sigma, lambda, mu_J, sigma_J, T)\<close>
  the jump-diffusion characteristic exponent times \<open>T\<close> is the diffusion exponent plus the
  compound-Poisson term \<open>lambda*T*(exp(i*z*mu_J - (1/2)*z^2*sigma_J^2) - 1)\<close>, for the drift
  \<open>r - q - (1/2)sigma^2 - lambda*(exp(mu_J + (1/2)sigma_J^2) - 1)\<close>; the characteristic function
  is its exponential.
\<close>

theorem jump_diffusion_exponent:
  "muRN r q sigma lmbda mu_j sigma_j
     = r - q - (1/2) * sigma\<^sup>2 - lmbda * (exp (mu_j + (1/2) * sigma_j\<^sup>2) - 1)
   \<and> psi_exponent (muRN r q sigma lmbda mu_j sigma_j) sigma lmbda mu_j sigma_j z * of_real T
     = diffusion_exponent (muRN r q sigma lmbda mu_j sigma_j) sigma T z
       + of_real lmbda * of_real T
           * (exp (\<i> * z * of_real mu_j - (1/2) * z\<^sup>2 * (of_real sigma_j)\<^sup>2) - 1)
   \<and> char_fn (muRN r q sigma lmbda mu_j sigma_j) sigma lmbda mu_j sigma_j T z
     = exp (diffusion_exponent (muRN r q sigma lmbda mu_j sigma_j) sigma T z
            + of_real lmbda * of_real T
                * (exp (\<i> * z * of_real mu_j - (1/2) * z\<^sup>2 * (of_real sigma_j)\<^sup>2) - 1))"
proof -
  have e: "psi_exponent mu sigma lmbda mu_j sigma_j z * of_real T
     = diffusion_exponent mu sigma T z
       + of_real lmbda * of_real T
           * (exp (\<i> * z * of_real mu_j - (1/2) * z\<^sup>2 * (of_real sigma_j)\<^sup>2) - 1)" for mu
    by (simp add: psi_exponent_def diffusion_exponent_def algebra_simps power_mult_distrib)
  show ?thesis
    unfolding char_fn_def e by (simp add: muRN_def)
qed

text \<open>
  C6, as stated, for every model variant: the characteristic function at frequency 0 is
  \<open>1 + 0i\<close>. \<^verbatim>\<open>f_Heston\<close> at \<open>phi = 0\<close> has \<open>d = |b|\<close>, so for \<open>b \<ge> 0\<close> the quotient \<open>g\<close> divides by
  \<open>b - d = 0\<close>: with the notebook's parameters (\<open>S0 = 55, v0 = 0.04, T = 1, r = 0.04,
  q = 0.02, kappa = 2, theta = 0.04, sigma = 0.3, rho = -0.7, lmbda = 0\<close>) and \<open>j = 2\<close>,
  \<open>b = 2\<close> and the value returned is not a finite number.
\<close>

theorem heston_at_zero_counterexample:
  "heston_b 2 0 (- 0.7) 0.3 2 = 2
   \<and> f_Heston 0 55 0.04 1 0.04 0.02 2 0.04 0.3 (- 0.7) 0 2 = Inl NotFinite"
  using f_Heston_0_nonneg [of 2 0 "- 0.7" "0.3" 2 55 "0.04" 1 "0.04" "0.02" "0.04"]
  by (simp add: heston_b_def)

text \<open>
  C6, amended: the jump-diffusion characteristic function, and the diffusion one (its case
  without jumps), at frequency argument 0 are exactly \<open>1 + 0i\<close> for every parameter set.
  \<^verbatim>\<open>f_Heston\<close> at \<open>phi = 0\<close> returns \<open>1 + 0i\<close> when \<open>sigma\<close> is not zero, \<open>S0\<close> is positive and
  its coefficient \<open>b\<close> is negative; when \<open>b \<ge> 0\<close> it returns no finite value.
\<close>

theorem characteristic_function_at_zero:
  "char_fn mu sigma lmbda mu_j sigma_j T 0 = 1
   \<and> exp (diffusion_exponent mu sigma T 0) = 1
   \<and> (vol \<noteq> 0 \<and> 0 < S0 \<and> heston_b kappa lam rho vol j < 0
        \<longrightarrow> f_Heston 0 S0 v0 T r q kappa theta vol rho lam j = Inr 1)
   \<and> (0 \<le> heston_b kappa lam rho vol j
        \<longrightarrow> (\<exists>e. f_Heston 0 S0 v0 T r q kappa theta vol rho lam j = Inl e))"
  by (simp add: char_fn_0 diffusion_exponent_def f_Heston_0_neg f_Heston_0_nonneg)

theorem characteristic_function_at_zero_witness:
  "(0.5::real) \<noteq> 0 \<and> (0::real) < 55 \<and> heston_b 0.1 0 0.9 0.5 1 < 0
   \<and> f_Heston 0 55 0.04 1 0.04 0.02 0.1 0.04 0.5 0.9 0 1 = Inr 1
   \<and> 0 \<le> heston_b 2 0 (- 0.7) 0.3 1
   \<and> (\<exists>e. f_Heston 0 55 0.04 1 0.04 0.02 2 0.04 0.3 (- 0.7) 0 1 = Inl e)"
proof -
  have b1: "heston_b 0.1 0 0.9 0.5 1 < 0" and b2: "0 \<le> heston_b 2 0 (- 0.7) 0.3 1"
    by (simp_all add: heston_b_def)
  show ?thesis
    using b1 b2
      characteristic_function_at_zero
        [where vol = "0.5" and ?S0.0 = 55 and kappa = "0.1" and lam = 0 and rho = "0.9"
           and j = 1 and ?v0.0 = "0.04" and T = 1 and r = "0.04" and q = "0.02"
           and theta = "0.04"]
      characteristic_function_at_zero
        [where vol = "0.3" and ?S0.0 = 55 and kappa = 2 and lam = 0 and rho = "- 0.7"
           and j = 1 and ?v0.0 = "0.04" and T = 1 and r = "0.04" and q = "0.02"
           and theta = "0.04"]
    by simp
qed

section \<open>Claims about the payoff transform\<close>




text \<open>
  C2, as stated, for every input: the entry at the zero frequency is finite. The function
  overwrites index \<open>floor(len/2)\<close>, wherever the zero frequency is: on the grid \<open>[0, 1]\<close> with
  \<open>alpha = 0\<close> the zero-frequency entry (index 0) stays the undefined quotient and the entry
  of frequency 1 is overwritten. On an empty grid, which the grid construction returns for
  \<open>n = 1\<close>, the assignment raises \<^verbatim>\<open>IndexError\<close>.
\<close>

theorem zero_frequency_counterexample:
  "payoff [0] [0, 1] 0 1 (1/2) 2 1 1 = Inr ([0], [None, Some (of_real (1 - ln 2))], [1])
   \<and> map_sum id (\<lambda>g. (x_grid g, xi_grid g)) (build_grid 6 1) = Inr ([], [])
   \<and> payoff [] [] 0 1 (1/2) 2 1 1 = Inl IndexError"
  by (simp add: payoff_pos Let_def closed_form_None_iff interval_lower_def interval_upper_def
      damped_payoff_def ln_half build_grid_def int_half_def linspace_def)

text \<open>
  C2, amended: for positive \<open>K, L, U\<close> and scale and a centred frequency grid (not empty,
  its zero frequency at index \<open>floor(len/2)\<close> and nowhere else, as in every grid the grid
  construction returns for an even \<open>n > 0\<close>: lemma \<open>build_grid_centred\<close>), the transform is
  returned; when \<open>alpha = 0\<close> or \<open>alpha = -1\<close> the general formula at frequency 0 is
  undefined and the entry there is \<open>C*(exp(b)-exp(a)-exp(k)*(b-a))\<close>, respectively
  \<open>C*(b-a+exp(k-b)-exp(k-a))\<close>; for every \<open>alpha\<close> the zero-frequency entry is finite.
\<close>

theorem zero_frequency_entry:
  assumes "0 < C" and "0 < K" and "0 < L" and "0 < U" and "centred xi"
  shows "\<exists>g G S. payoff x xi alpha K L U C call = Inr (g, G, S)
           \<and> length G = length xi
           \<and> (let k = ln (K / C);
                   a = interval_lower call (ln (L / C)) k (ln (U / C));
                   b = interval_upper call (ln (L / C)) k (ln (U / C))
               in (alpha = 0 \<longrightarrow> closed_form C alpha k a b 0 = None
                     \<and> G ! (length xi div 2)
                         = Some (of_real (C * (exp b - exp a - exp k * (b - a)))))
                \<and> (alpha = - 1 \<longrightarrow> closed_form C alpha k a b 0 = None
                     \<and> G ! (length xi div 2)
                         = Some (of_real (C * (b - a + exp (k - b) - exp (k - a))))))
           \<and> (\<forall>j < length xi. xi ! j = 0 \<longrightarrow> (\<exists>z. G ! j = Some z))"
proof -
  from \<open>centred xi\<close> have ne: "xi \<noteq> []"
    and z: "\<And>j. j < length xi \<Longrightarrow> xi ! j = 0 \<longleftrightarrow> j = length xi div 2"
    by (auto simp: centred_def)
  have mid: "length xi div 2 < length xi"
    using ne by (cases xi) simp_all
  have fin: "\<exists>z. closed_form C alpha k a b v = Some z"
    if "(alpha \<noteq> 0 \<and> alpha \<noteq> - 1) \<or> v \<noteq> 0" for k a b v
    using that closed_form_None_iff [of C alpha k a b v]
    by (cases "closed_form C alpha k a b v") auto
  show ?thesis
    using ne mid z
    by (auto simp: payoff_pos [OF assms(1-4)] Let_def closed_form_None_iff nth_list_update fin)
qed

theorem zero_frequency_entry_witness:
  "(0::real) < 1 \<and> (0::real) < 1/2 \<and> (0::real) < 2 \<and> centred [- 1, 0]
   \<and> (\<exists>g G S. payoff [0] [- 1, 0] 0 1 (1/2) 2 1 1 = Inr (g, G, S) \<and> length G = 2
         \<and> G ! 1 = Some (of_real (1 - ln 2)))"
proof -
  have c: "centred [- 1, 0]"
    by (auto simp: centred_def less_Suc_eq)
  show ?thesis
    using zero_frequency_entry [of 1 1 "1/2" 2 "[- 1, 0]" "[0]" 0 1] c
    by (auto simp: Let_def interval_lower_def interval_upper_def ln_half)
qed

text \<open>
  C8, as stated: a call with \<open>alpha \<le> 0\<close> and a put with \<open>alpha \<ge> -1\<close> are refused before
  any transform is computed. The function has no such check, and the driver itself prices
  the call with \<open>alpha = -1\<close> and the put with \<open>alpha = 1\<close>. Both calls return the damped payoff
  and the transform: on a one-point grid, where the values are written out, and on the
  driver's own grid and parameters (\<open>xwidth = 6, ngrid = 256, K = 1.1, S0 = 1,
  L = S0 * exp(-3), U = S0 * exp(3)\<close>).
\<close>

theorem alpha_range_counterexample:
  "payoff [0] [0] (- 1) 1 (1/2) 2 1 1 = Inr ([0], [Some (of_real (ln 2 - 1/2))], [1])
   \<and> payoff [0] [0] 1 1 (1/2) 2 1 0 = Inr ([0], [Some (1/8)], [1])
   \<and> (case build_grid 6 256 of
        Inl e \<Rightarrow> False
      | Inr g \<Rightarrow>
          \<not> isl (payoff (x_grid g) (xi_grid g) (- 1) 1.1 (1 * exp (- 3)) (1 * exp 3) 1 1)
          \<and> \<not> isl (payoff (x_grid g) (xi_grid g) 1 1.1 (1 * exp (- 3)) (1 * exp 3) 1 0))"
proof -
  have small: "payoff [0] [0] (- 1) 1 (1/2) 2 1 1 = Inr ([0], [Some (of_real (ln 2 - 1/2))], [1])
     \<and> payoff [0] [0] 1 1 (1/2) 2 1 0 = Inr ([0], [Some (1/8)], [1])"
    by (simp add: payoff_pos Let_def closed_form_def interval_lower_def interval_upper_def
        damped_payoff_def ln_half exp_minus exp_ln2 exp_ln2_twice)
  obtain g where g: "build_grid 6 256 = Inr g" and len: "length (xi_grid g) = nat 256"
    using build_grid_even [of 128 6] by (simp add: length_centred_range)
  from len have ne: "xi_grid g \<noteq> []"
    by auto
  have "\<not> isl (payoff (x_grid g) (xi_grid g) alpha 1.1 (1 * exp (- 3)) (1 * exp 3) 1 call)"
    for alpha call
    by (rule payoff_returns) (simp_all add: ne)
  with small show ?thesis
    by (simp add: g)
qed

text \<open>
  C8, amended: the payoff transform makes no admissibility check on \<open>alpha\<close>. For positive
  \<open>K, L, U\<close> and scale it fails for no value of \<open>alpha\<close> and neither option right, except
  with \<^verbatim>\<open>IndexError\<close> when \<open>alpha\<close> is 0 or -1 and the frequency grid is empty.
\<close>

theorem payoff_failure_cases:
  assumes "0 < C" and "0 < K" and "0 < L" and "0 < U"
  shows "payoff x xi alpha K L U C call = Inl e
           \<longleftrightarrow> e = IndexError \<and> (alpha = 0 \<or> alpha = - 1) \<and> xi = []"
  by (auto simp: payoff_pos [OF assms] Let_def)

theorem payoff_failure_cases_witness:
  "(0::real) < 1 \<and> (0::real) < 1/2 \<and> (0::real) < 2
   \<and> payoff [0] [] 0 1 (1/2) 2 1 1 = Inl IndexError
   \<and> payoff [0] [0] (- 1) 1 (1/2) 2 1 1 \<noteq> Inl IndexError"
  using payoff_failure_cases [of 1 1 "1/2" 2 "[0]" "[]" 0 1 IndexError]
     payoff_failure_cases [of 1 1 "1/2" 2 "[0]" "[0]" "- 1" 1 IndexError]
  by simp

section \<open>Claims about the pricing forms\<close>

text \<open>
  C10: for sequences \<open>G\<close> and \<open>psi\<close> of the same length on a price grid that is increasing
  and has the spot at index \<open>floor(len/2)\<close> (the driver's grid \<open>S = S0 * exp(x)\<close> is such:
  lemma \<open>driver_price_grid\<close>), the price computed from \<open>G * conj(psi)\<close> and the price computed
  from \<open>conj(G) * psi\<close> are the same number, and
  \<open>Re(sum G\<^sub>k conj(psi\<^sub>k)) = Re(sum conj(G\<^sub>k) psi\<^sub>k)\<close>.
\<close>

theorem conjugation_symmetry:
  assumes "length G = length psi" and "length S = length G" and "2 \<le> length G"
    and "xwidth \<noteq> 0" and "sorted_wrt (<) S" and "S ! (length S div 2) = S0"
  shows "price_conj_psi r T xwidth S S0 G psi = price_conj_G r T xwidth S S0 G psi
         \<and> (\<exists>v. price_conj_psi r T xwidth S S0 G psi = Inr v)
         \<and> Re (\<Sum>k<length G. G ! k * cnj (psi ! k)) = Re (\<Sum>k<length G. cnj (G ! k) * psi ! k)"
  by (simp add: price_conj_psi_at_spot [OF assms] price_conj_G_at_spot [OF assms] Re_sum_cnj_swap)

theorem conjugation_symmetry_witness:
  "length [1, \<i>] = length [\<i>, 2 :: complex] \<and> length [1/2, 1 :: real] = length [1, \<i>]
   \<and> 2 \<le> length [1, \<i>] \<and> (1::real) \<noteq> 0 \<and> sorted_wrt (<) [1/2, 1 :: real]
   \<and> [1/2, 1 :: real] ! (length [1/2, 1 :: real] div 2) = 1
   \<and> price_conj_psi 0 1 1 [1/2, 1] 1 [1, \<i>] [\<i>, 2] = price_conj_G 0 1 1 [1/2, 1] 1 [1, \<i>] [\<i>, 2]
   \<and> price_conj_G 0 1 1 [1/2, 1] 1 [1, \<i>] [\<i>, 2] = Inr 0"
  using conjugation_symmetry [of "[1, \<i>]" "[\<i>, 2]" "[1/2, 1]" 1 1 0 1]
    price_conj_G_at_spot [of "[1, \<i>]" "[\<i>, 2]" "[1/2, 1]" 1 1 0 1]
  by (simp add: lessThan_Suc numeral_2_eq_2)

text \<open>
  C5, as stated: on identical inputs the transform form and the trapezoidal form agree to
  within a small tolerance. With all entries of \<open>G\<close> and \<open>psi\<close> equal to 1 on the four-point
  grid of width 4 (discount 1) the transform form gives 1 and the trapezoidal form 3/4.
\<close>

theorem pricing_forms_counterexample:
  "price_conj_psi 0 1 4 [exp (- 2), exp (- 1), 1, exp 1] 1 [1, 1, 1, 1] [1, 1, 1, 1] = Inr 1
   \<and> price_trapz 0 1 4 [1, 1, 1, 1] [1, 1, 1, 1] = Inr (3/4)
   \<and> \<not> \<bar>(1::real) - 3/4\<bar> < 1 / 10 ^ 6"
proof -
  have four: "{..<4::nat} = {0, 1, 2, 3}"
    by auto
  have "price_conj_psi 0 1 4 [exp (- 2), exp (- 1), 1, exp 1] 1 [1, 1, 1, 1] [1, 1, 1, 1]
          = Inr (exp (- 0 * 1) * Re (\<Sum>j<length [1, 1, 1, 1 :: complex].
                   [1, 1, 1, 1] ! j * cnj ([1, 1, 1, 1] ! j)) / 4)"
    by (rule price_conj_psi_at_spot) simp_all
  then have a: "price_conj_psi 0 1 4 [exp (- 2), exp (- 1), 1, exp 1] 1 [1, 1, 1, 1] [1, 1, 1, 1]
          = Inr 1"
    by (simp add: four)
  have "price_trapz 0 1 4 [1, 1, 1, 1] [1, 1, 1, 1]
          = Inr (exp (- 0 * 1)
                  * Re ((\<Sum>j<length [1, 1, 1, 1 :: complex]. cnj ([1, 1, 1, 1] ! j) * [1, 1, 1, 1] ! j)
                        - (cnj ([1, 1, 1, 1] ! 0) * [1, 1, 1, 1] ! 0
                           + cnj ([1, 1, 1, 1] ! (length [1, 1, 1, 1 :: complex] - 1))
                               * [1, 1, 1, 1] ! (length [1, 1, 1, 1 :: complex] - 1)) / 2)
                  / 4)"
    by (rule price_trapz_value) simp_all
  then have b: "price_trapz 0 1 4 [1, 1, 1, 1] [1, 1, 1, 1] = Inr (3/4)"
    by (simp add: four)
  from a b show ?thesis by simp
qed

text \<open>
  C5, amended: on identical inputs the transform form read off at the spot exceeds the
  trapezoidal form by exactly
  \<open>discount * Re(conj(G\<^sub>0) psi\<^sub>0 + conj(G\<^bsub>n-1\<^esub>) psi\<^bsub>n-1\<^esub>) / (2 * width)\<close>, half the integrand at the two
  ends of the frequency grid; the two forms agree to within a tolerance exactly when this
  end term is below it.
\<close>

theorem pricing_forms_difference:
  assumes "length G = length psi" and "length S = length G" and "2 \<le> length G"
    and "xwidth \<noteq> 0" and "sorted_wrt (<) S" and "S ! (length S div 2) = S0"
  shows "\<exists>v w. price_conj_psi r T xwidth S S0 G psi = Inr v
           \<and> price_trapz r T xwidth G psi = Inr w
           \<and> v - w = exp (- r * T)
                      * Re (cnj (G ! 0) * psi ! 0
                            + cnj (G ! (length G - 1)) * psi ! (length G - 1))
                      / (2 * xwidth)"
proof -
  define A where "A = (\<Sum>j<length G. cnj (G ! j) * psi ! j)"
  define E where "E = cnj (G ! 0) * psi ! 0 + cnj (G ! (length G - 1)) * psi ! (length G - 1)"
  have ne: "G \<noteq> []"
    using assms(3) by auto
  have v: "price_conj_psi r T xwidth S S0 G psi = Inr (exp (- r * T) * Re A / xwidth)"
    unfolding price_conj_psi_at_spot [OF assms] A_def by (simp only: Re_sum_cnj_swap)
  have w: "price_trapz r T xwidth G psi = Inr (exp (- r * T) * Re (A - E / 2) / xwidth)"
    unfolding price_trapz_value [OF assms(1) ne assms(4)] A_def E_def ..
  have "exp (- r * T) * Re A / xwidth - exp (- r * T) * Re (A - E / 2) / xwidth
          = exp (- r * T) * Re E / (2 * xwidth)"
    using assms(4) by (simp add: field_simps)
  with v w show ?thesis
    unfolding E_def by blast
qed

theorem pricing_forms_difference_witness:
  "length [1, 1 :: complex] = length [1, 1 :: complex]
   \<and> length [1/2, 1 :: real] = length [1, 1 :: complex] \<and> 2 \<le> length [1, 1 :: complex]
   \<and> (2::real) \<noteq> 0 \<and> sorted_wrt (<) [1/2, 1 :: real]
   \<and> [1/2, 1 :: real] ! (length [1/2, 1 :: real] div 2) = 1
   \<and> (\<exists>v w. price_conj_psi 0 1 2 [1/2, 1] 1 [1, 1] [1, 1] = Inr v
          \<and> price_trapz 0 1 2 [1, 1] [1, 1] = Inr w \<and> v - w = 1/2)"
  using pricing_forms_difference [of "[1, 1]" "[1, 1]" "[1/2, 1]" 2 1 0 1]
  by simp

section \<open>Claims about the recovered density\<close>

text \<open>
  C7, as stated, for every characteristic function with value 1 at zero frequency: the
  trapezoidal integral of the recovered density is close to 1, the closer the larger the
  grid. For the unit mass at the left end of the real-space grid (the jump-diffusion
  characteristic function with \<open>sigma = 0\<close>, \<open>lambda = 0\<close> and \<open>muRN * T = -xwidth/2\<close>) the
  integral is exactly 1/2: on the driver's grid of width 6 with 256 points, and on the grid
  of width 4 with 4 points, where the sampled characteristic function is \<open>[1, -1, 1, -1]\<close>
  and the density \<open>[1, 0, 0, 0]\<close>. Lemma \<open>edge_mass_half\<close> gives 1/2 for
  every even grid size.
\<close>

theorem density_mass_counterexample:
  "(case build_grid 6 256 of
      Inl e \<Rightarrow> False
    | Inr g \<Rightarrow>
        psi_density (- 3) 0 0 0 0 1 (xi_grid g) ! 128 = 1
        \<and> map_sum id (density_mass (dx g))
              (recover_density 6 (psi_density (- 3) 0 0 0 0 1 (xi_grid g))) = Inr (1/2))
   \<and> (case build_grid 4 4 of
      Inl e \<Rightarrow> False
    | Inr g \<Rightarrow>
        psi_density (- 2) 0 0 0 0 1 (xi_grid g) = [1, - 1, 1, - 1]
        \<and> recover_density 4 [1, - 1, 1, - 1] = Inr [1, 0, 0, 0]
        \<and> density_mass (dx g) [1, 0, 0, 0] = 1/2)"
proof -
  define g1 where "g1 = \<lparr> half_points = 128, half_width = 6 / 2,
                 dx = 6 / real_of_int (2 * 128),
                 x_grid = map (\<lambda>v. 6 / real_of_int (2 * 128) * v) (centred_range (2 * 128)),
                 dxi = 2 * pi / 6,
                 xi_grid = map (\<lambda>v. 2 * pi / 6 * v) (centred_range (2 * 128)) \<rparr>"
  define g2 where "g2 = \<lparr> half_points = 2, half_width = 4 / 2,
                 dx = 4 / real_of_int (2 * 2),
                 x_grid = map (\<lambda>v. 4 / real_of_int (2 * 2) * v) (centred_range (2 * 2)),
                 dxi = 2 * pi / 4,
                 xi_grid = map (\<lambda>v. 2 * pi / 4 * v) (centred_range (2 * 2)) \<rparr>"
  have b1: "build_grid 6 256 = Inr g1"
    using build_grid_even [of 128 6] by (simp add: g1_def)
  have b2: "build_grid 4 4 = Inr g2"
    using build_grid_even [of 2 4] by (simp add: g2_def)
  have "psi_density (- 3) 0 0 0 0 1 (map (\<lambda>v. 2 * pi / 6 * v) (centred_range (2 * 128)))
          = psi_edge (nat 128)"
    by (rule psi_density_edge) simp_all
  then have p1: "psi_density (- 3) 0 0 0 0 1 (xi_grid g1) = psi_edge 128"
    by (simp add: g1_def)
  have "psi_density (- 2) 0 0 0 0 1 (map (\<lambda>v. 2 * pi / 4 * v) (centred_range (2 * 2)))
          = psi_edge (nat 2)"
    by (rule psi_density_edge) simp_all
  then have p2: "psi_density (- 2) 0 0 0 0 1 (xi_grid g2) = [1, - 1, 1, - 1]"
    by (simp add: g2_def psi_edge_2)
  have d1: "dx g1 = 6 / real (2 * 128)" and d2: "dx g2 = 1"
    by (simp_all add: g1_def g2_def)
  have m: "density_mass 1 [1, 0, 0, 0] = 1/2"
    by (simp add: density_mass_def trapz_def lessThan_Suc numeral_eq_Suc)
  have e: "psi_edge 128 ! 128 = 1
         \<and> map_sum id (density_mass (6 / real (2 * 128))) (recover_density 6 (psi_edge 128))
             = Inr (1/2)"
    by (rule edge_mass_half) simp_all
  show ?thesis
    unfolding b1 b2 sum.case p1 p2 d1 d2 using e m recover_edge_2 by blast
qed

text \<open>
  C7, amended: for every non-empty sequence of characteristic-function values whose entry
  at the zero-frequency index \<open>floor(n/2)\<close> is 1 and every non-zero width, the density is
  recovered, its rectangle-rule sum \<open>sum f\<^sub>j * dx\<close> with \<open>dx = width/n\<close> is exactly 1, and its
  trapezoidal integral is exactly \<open>1 - dx * (f\<^sub>0 + f\<^bsub>n-1\<^esub>) / 2\<close>: it is within a tolerance of 1
  exactly when half the density mass of the two end cells is.
\<close>

theorem density_mass_value:
  assumes "psi \<noteq> []" and "xwidth \<noteq> 0" and "psi ! (length psi div 2) = 1"
  shows "\<exists>f. recover_density xwidth psi = Inr f \<and> length f = length psi
           \<and> (\<Sum>j<length psi. f ! j * (xwidth / real (length psi))) = 1
           \<and> density_mass (xwidth / real (length psi)) f
               = 1 - (xwidth / real (length psi)) * (f ! 0 + f ! (length psi - 1)) / 2"
  using assms by (rule density_mass_formula)

theorem density_mass_value_witness:
  "[0, 1 :: complex] \<noteq> [] \<and> (2::real) \<noteq> 0 \<and> [0, 1 :: complex] ! (length [0, 1 :: complex] div 2) = 1
   \<and> (\<exists>f. recover_density 2 [0, 1] = Inr f \<and> length f = 2
         \<and> f ! 0 * (2 / 2) + f ! 1 * (2 / 2) = 1
         \<and> density_mass (2 / 2) f = 1 - (2 / 2) * (f ! 0 + f ! 1) / 2)"
  using density_mass_value [of "[0, 1]" 2]
  by (simp add: lessThan_Suc numeral_2_eq_2 add.commute)

end
